theory Spec2Isabelle
  imports Main "HOL-Library.Multiset"
begin

section \<open>Conditional Permutation Importance (hidimstat/cpi.py)\<close>

text \<open>
  The class \<open>CPI\<close> is orchestration over three collaborators: numpy arrays, scikit-learn
  estimator objects and a numpy random generator. Arrays are modelled concretely (rows of
  elements, with numpy's index checks); the methods of the collaborating objects are
  parameters, collected in the record \<open>env\<close>; estimator objects that \<open>fit\<close> mutates live in
  an explicit store, so that cloning and aliasing are visible.

  Elements of arrays have an arbitrary type with \<open>+\<close> and \<open>-\<close>; no law of arithmetic is
  assumed of them, so nothing proved below depends on floating point behaving like the
  reals.
\<close>

subsection \<open>Errors\<close>

datatype error =
    NotFittedError
  | ValueError string
  | KeyError
  | IndexError
  | TypeError
  | AttributeError

subsection \<open>Two-dimensional arrays\<close>

text \<open>
  A 2-D array of shape \<open>(length (rows X), ncols X)\<close>. Every array that numpy builds has
  rows of length \<open>ncols\<close>; \<open>wf_array\<close> states it.
\<close>

record 'a ndarray =
  ncols :: nat
  rows :: "'a list list"


definition nrows :: "'a ndarray \<Rightarrow> nat" where
  "nrows X = length (rows X)"

text \<open>An index into an axis of length \<open>n\<close>: negative indices count from the end.\<close>

definition norm_index :: "nat \<Rightarrow> int \<Rightarrow> error + nat" where
  "norm_index n i =
     (if 0 \<le> i \<and> i < int n then Inr (nat i)
      else if - int n \<le> i \<and> i < 0 then Inr (nat (i + int n))
      else Inl IndexError)"

fun norm_ids :: "nat \<Rightarrow> int list \<Rightarrow> error + nat list" where
  "norm_ids n [] = Inr []"
| "norm_ids n (i # is) =
     (case norm_index n i of
        Inl e \<Rightarrow> Inl e
      | Inr k \<Rightarrow> (case norm_ids n is of Inl e \<Rightarrow> Inl e | Inr ks \<Rightarrow> Inr (k # ks)))"

text \<open>\<open>X[:, ids]\<close> with a list of integers.\<close>

definition take_cols :: "'a ndarray \<Rightarrow> int list \<Rightarrow> error + 'a ndarray" where
  "take_cols X ids =
     (case norm_ids (ncols X) ids of
        Inl e \<Rightarrow> Inl e
      | Inr ks \<Rightarrow>
          Inr \<lparr>ncols = length ks, rows = map (\<lambda>r. map (\<lambda>k. r ! k) ks) (rows X)\<rparr>)"

text \<open>\<open>np.delete(np.arange(n), ids)\<close>: the indices that remain, in increasing order.\<close>

definition delete_arange :: "nat \<Rightarrow> int list \<Rightarrow> error + nat list" where
  "delete_arange n ids =
     (case norm_ids n ids of
        Inl e \<Rightarrow> Inl e
      | Inr ks \<Rightarrow> Inr (filter (\<lambda>k. k \<notin> set ks) [0..<n]))"

text \<open>\<open>np.delete(X, ids, axis=1)\<close>.\<close>

definition np_delete :: "'a ndarray \<Rightarrow> int list \<Rightarrow> error + 'a ndarray" where
  "np_delete X ids =
     (case delete_arange (ncols X) ids of
        Inl e \<Rightarrow> Inl e
      | Inr keep \<Rightarrow>
          Inr \<lparr>ncols = length keep, rows = map (\<lambda>r. map (\<lambda>k. r ! k) keep) (rows X)\<rparr>)"

text \<open>
  \<open>A[:, ids] = V\<close>. Within a row the assignments happen in the order of \<open>ids\<close>, so a
  repeated index keeps the last value. At both call sites \<open>V\<close> has the shape of the
  indexed part, and any other shape is an error here (numpy's broadcasting is never
  exercised by the program).
\<close>

definition assign_row :: "'a list \<Rightarrow> nat list \<Rightarrow> 'a list \<Rightarrow> 'a list" where
  "assign_row r ks vs = fold (\<lambda>(k, v) r'. r'[k := v]) (zip ks vs) r"

definition assign_cols :: "'a ndarray \<Rightarrow> int list \<Rightarrow> 'a ndarray \<Rightarrow> error + 'a ndarray" where
  "assign_cols A ids V =
     (case norm_ids (ncols A) ids of
        Inl e \<Rightarrow> Inl e
      | Inr ks \<Rightarrow>
          if nrows V \<noteq> nrows A \<or> ncols V \<noteq> length ks
          then Inl (ValueError ''shape mismatch'')
          else Inr (A\<lparr>rows := map2 (\<lambda>r vs. assign_row r ks vs) (rows A) (rows V)\<rparr>))"

text \<open>\<open>a.reshape((n, k))\<close> of the data \<open>flat\<close> read in row-major order.\<close>

definition reshape :: "'a list \<Rightarrow> nat \<Rightarrow> nat \<Rightarrow> error + 'a ndarray" where
  "reshape flat n k =
     (if length flat = n * k
      then Inr \<lparr>ncols = k, rows = map (\<lambda>i. take k (drop (i * k) flat)) [0..<n]\<rparr>
      else Inl (ValueError ''cannot reshape''))"

text \<open>Elementwise \<open>A - B\<close> and \<open>A + B\<close> of arrays of one shape.\<close>

definition array_sub :: "'a::minus ndarray \<Rightarrow> 'a ndarray \<Rightarrow> 'a ndarray" where
  "array_sub A B = \<lparr>ncols = ncols A, rows = map2 (map2 (-)) (rows A) (rows B)\<rparr>"

definition array_add :: "'a::plus ndarray \<Rightarrow> 'a ndarray \<Rightarrow> 'a ndarray" where
  "array_add A B = \<lparr>ncols = ncols A, rows = map2 (map2 (+)) (rows A) (rows B)\<rparr>"

subsection \<open>Dictionaries\<close>

text \<open>
  \<open>groups\<close> is a dict from group names to lists of column indices. It is an association
  list, whose keys are pairwise different as in every dict, so that \<open>len\<close> is its length.
\<close>

datatype key = IntKey int | StrKey string

definition dict_get :: "('k \<times> 'v) list \<Rightarrow> 'k \<Rightarrow> error + 'v" where
  "dict_get d k = (case map_of d k of None \<Rightarrow> Inl KeyError | Some v \<Rightarrow> Inr v)"

subsection \<open>Collaborators\<close>

text \<open>
  The predictive model: what \<open>check_is_fitted\<close> answers for it, and its two prediction
  methods. \<open>CPI\<close> never fits it.
\<close>

record ('a, 'p) estimator =
  e_fitted :: bool
  e_predict :: "'a ndarray \<Rightarrow> 'p"
  e_predict_proba :: "'a ndarray \<Rightarrow> 'p"

text \<open>
  The external libraries. \<open>'m\<close> is the state of an imputation-model object: \<open>m_fit\<close>
  gives the state of the object after \<open>fit(X, Y)\<close>, \<open>m_predict\<close> the data of the array
  that \<open>predict(X)\<close> returns, in row-major order, \<open>m_clone\<close> the state of the new object
  that \<open>sklearn.base.clone\<close> builds. \<open>'s\<close> is the state of a \<open>numpy.random.RandomState\<close>:
  \<open>rs_seed\<close> seeds one from an integer, and \<open>rs_permutation s n\<close> shuffles \<open>arange(n)\<close>,
  which is how \<open>permutation\<close> permutes the first axis of a 2-D array. \<open>np_empty\<close> is what
  uninitialised memory holds.
\<close>

record ('a, 'm, 's, 'l) env =
  m_fitted :: "'m \<Rightarrow> bool"
  m_clone :: "'m \<Rightarrow> 'm"
  m_fit :: "'m \<Rightarrow> 'a ndarray \<Rightarrow> 'a ndarray \<Rightarrow> 'm"
  m_predict :: "'m \<Rightarrow> 'a ndarray \<Rightarrow> 'a list"
  rs_seed :: "int \<Rightarrow> 's"
  rs_permutation :: "'s \<Rightarrow> nat \<Rightarrow> nat list \<times> 's"
  np_mean :: "'l list \<Rightarrow> 'l"
  np_empty :: "'a"

text \<open>
  \<open>np.random.RandomState(random_state)\<close>. Without a seed the generator is seeded from
  the operating system: \<open>fresh\<close> is that state, different at every construction.
\<close>

definition RandomState :: "('a, 'm, 's, 'l) env \<Rightarrow> int option \<Rightarrow> 's \<Rightarrow> error + 's" where
  "RandomState env random_state fresh =
     (case random_state of
        None \<Rightarrow> Inr fresh
      | Some k \<Rightarrow>
          if 0 \<le> k \<and> k < 2 ^ 32 then Inr (rs_seed env k)
          else Inl (ValueError ''Seed must be between 0 and 2**32 - 1''))"

text \<open>\<open>rng.permutation(A)\<close> for a 2-D array: the rows in a shuffled order.\<close>

definition permutation ::
  "('a, 'm, 's, 'l) env \<Rightarrow> 's \<Rightarrow> 'a ndarray \<Rightarrow> 'a ndarray \<times> 's" where
  "permutation env s A =
     (let (idx, s') = rs_permutation env s (nrows A)
      in (A\<lparr>rows := map (\<lambda>i. rows A ! i) idx\<rparr>, s'))"

definition np_empty_like :: "('a, 'm, 's, 'l) env \<Rightarrow> 'a ndarray \<Rightarrow> 'a ndarray" where
  "np_empty_like env X =
     \<lparr>ncols = ncols X, rows = replicate (nrows X) (replicate (ncols X) (np_empty env))\<rparr>"

subsection \<open>The store of imputation-model objects\<close>

text \<open>
  An object is its address in the store; a new object takes the next address. Python
  has no dangling reference: \<open>valid_addrs\<close> holds of every list of objects the program
  can hold.
\<close>

type_synonym addr = nat
type_synonym 'm heap = "'m list"

definition valid_addrs :: "'m heap \<Rightarrow> addr list \<Rightarrow> bool" where
  "valid_addrs h as = list_all (\<lambda>a. a < length h) as"

text \<open>The constructor's argument \<open>imputation_model\<close>: one estimator, or a list of them.\<close>

datatype imputation_arg = Single addr | ModelList "addr list"

subsection \<open>The class\<close>

text \<open>
  The attributes of an instance. \<open>nb_groups\<close> is \<open>None\<close> as long as the attribute does
  not exist, that is until \<open>fit\<close> sets it.
\<close>

record ('a, 'p, 'y, 'l, 's) cpi =
  estimator :: "('a, 'p) estimator"
  imputation_model :: imputation_arg
  list_imputation_mod :: "addr list"
  n_perm :: int
  groups :: "(key \<times> int list) list option"
  random_state :: "int option"
  loss :: "'y \<Rightarrow> 'p \<Rightarrow> 'l"
  score_proba :: bool
  n_jobs :: int
  rng :: 's
  nb_groups :: "nat option"

definition CPI_init ::
  "('a, 'm, 's, 'l) env \<Rightarrow> ('a, 'p) estimator \<Rightarrow> imputation_arg \<Rightarrow> int \<Rightarrow>
   (key \<times> int list) list option \<Rightarrow> ('y \<Rightarrow> 'p \<Rightarrow> 'l) \<Rightarrow> bool \<Rightarrow> int option \<Rightarrow> int \<Rightarrow> 's \<Rightarrow>
   error + ('a, 'p, 'y, 'l, 's) cpi" where
  "CPI_init env est imp nperm grps lss proba seed njobs fresh =
     (if \<not> e_fitted est then Inl NotFittedError
      else case RandomState env seed fresh of
        Inl e \<Rightarrow> Inl e
      | Inr s \<Rightarrow>
          Inr \<lparr>estimator = est,
               imputation_model = imp,
               list_imputation_mod = (case imp of ModelList ms \<Rightarrow> ms | Single a \<Rightarrow> []),
               n_perm = nperm,
               groups = grps,
               random_state = seed,
               loss = lss,
               score_proba = proba,
               n_jobs = njobs,
               rng = s,
               nb_groups = None\<rparr>)"

subsection \<open>fit\<close>

text \<open>\<open>{j: [j] for j in range(n)}\<close>\<close>

definition singleton_groups :: "nat \<Rightarrow> (key \<times> int list) list" where
  "singleton_groups n = map (\<lambda>j. (IntKey (int j), [int j])) [0..<n]"

text \<open>
  \<open>[clone(self.imputation_model) for _ in range(self.nb_groups)]\<close>. The clones of one
  estimator are new objects. The clone of a list is a list, which is no estimator: such an
  element is \<open>None\<close> here. (It arises only from an empty list: \<open>list_imputation_mod\<close> is
  the constructor's list, and \<open>fit\<close> clones only when \<open>list_imputation_mod\<close> is empty.)
\<close>

definition clone_models ::
  "('a, 'm, 's, 'l) env \<Rightarrow> imputation_arg \<Rightarrow> nat \<Rightarrow> 'm heap \<Rightarrow> addr option list \<times> 'm heap" where
  "clone_models env imp nb h =
     (case imp of
        Single a \<Rightarrow>
          (map Some [length h ..< length h + nb], h @ replicate nb (m_clone env (h ! a)))
      | ModelList ms \<Rightarrow> (replicate nb None, h))"

text \<open>
  The task \<open>joblib_fit_one_gp(estimator, X, y, j)\<close>. \<open>estimator.fit\<close> mutates the object
  and the task returns it; an element without a \<open>fit\<close> method raises.
\<close>

definition joblib_fit_one_gp ::
  "('a, 'm, 's, 'l) env \<Rightarrow> ('a, 'p, 'y, 'l, 's) cpi \<Rightarrow> 'a ndarray \<Rightarrow> 'y \<Rightarrow>
   addr option \<Rightarrow> nat \<Rightarrow> 'm heap \<Rightarrow> error + (addr \<times> 'm heap)" where
  "joblib_fit_one_gp env c X y est j h =
     (case groups c of
        None \<Rightarrow> Inl TypeError
      | Some g \<Rightarrow>
     (case dict_get g (IntKey (int j)) of
        Inl e \<Rightarrow> Inl e
      | Inr ids \<Rightarrow>
     (case take_cols X ids of
        Inl e \<Rightarrow> Inl e
      | Inr X_j \<Rightarrow>
     (case np_delete X ids of
        Inl e \<Rightarrow> Inl e
      | Inr X_minus_j \<Rightarrow>
     (case est of
        None \<Rightarrow> Inl AttributeError
      | Some a \<Rightarrow> Inr (a, h[a := m_fit env (h ! a) X_minus_j X_j]))))))"

text \<open>
  \<open>Parallel(n_jobs=self.n_jobs)(delayed(task)(...) for j, estimator in enumerate(...))\<close>
  is embedded as joblib runs it for \<open>n_jobs = 1\<close>: the tasks one after the other in the
  calling process, in the order of the list, the first exception ending the run.
\<close>

fun fit_all ::
  "('a, 'm, 's, 'l) env \<Rightarrow> ('a, 'p, 'y, 'l, 's) cpi \<Rightarrow> 'a ndarray \<Rightarrow> 'y \<Rightarrow>
   addr option list \<Rightarrow> nat \<Rightarrow> 'm heap \<Rightarrow> error + (addr list \<times> 'm heap)" where
  "fit_all env c X y [] j h = Inr ([], h)"
| "fit_all env c X y (est # ests) j h =
     (case joblib_fit_one_gp env c X y est j h of
        Inl e \<Rightarrow> Inl e
      | Inr (a, h') \<Rightarrow>
          (case fit_all env c X y ests (Suc j) h' of
             Inl e \<Rightarrow> Inl e
           | Inr (as, h'') \<Rightarrow> Inr (a # as, h'')))"

definition fit ::
  "('a, 'm, 's, 'l) env \<Rightarrow> ('a, 'p, 'y, 'l, 's) cpi \<Rightarrow> 'a ndarray \<Rightarrow> 'y \<Rightarrow> 'm heap \<Rightarrow>
   error + (('a, 'p, 'y, 'l, 's) cpi \<times> 'm heap)" where
  "fit env c X y h =
     (let (nb, g) = (case groups c of
                       None \<Rightarrow> (ncols X, singleton_groups (ncols X))
                     | Some g \<Rightarrow> (length g, g));
          c1 = c\<lparr>nb_groups := Some nb, groups := Some g\<rparr>;
          (ests, h1) = (if list_imputation_mod c1 = []
                        then clone_models env (imputation_model c1) nb h
                        else (map Some (list_imputation_mod c1), h))
      in case fit_all env c1 X y ests 0 h1 of
           Inl e \<Rightarrow> Inl e
         | Inr (fitted, h2) \<Rightarrow> Inr (c1\<lparr>list_imputation_mod := fitted\<rparr>, h2))"

subsection \<open>predict\<close>

text \<open>
  One round of the permutation loop, up to the perturbed design matrix \<open>X_perm\<close>; the
  generator's state is returned with it.
\<close>

definition X_perm_round ::
  "('a::{plus,minus}, 'm, 's, 'l) env \<Rightarrow> 'a ndarray \<Rightarrow> 'a ndarray \<Rightarrow> 'a ndarray \<Rightarrow>
   'a ndarray \<Rightarrow> int list \<Rightarrow> nat list \<Rightarrow> 's \<Rightarrow> error + ('a ndarray \<times> 's)" where
  "X_perm_round env X X_minus_j X_j_hat residual_j group_ids non_group_ids s =
     (let (P, s') = permutation env s residual_j;
          X_j_perm = array_add X_j_hat P
      in case assign_cols (np_empty_like env X) (map int non_group_ids) X_minus_j of
           Inl e \<Rightarrow> Inl e
         | Inr X_perm0 \<Rightarrow>
        (case assign_cols X_perm0 group_ids X_j_perm of
           Inl e \<Rightarrow> Inl e
         | Inr X_perm \<Rightarrow> Inr (X_perm, s')))"

definition estimator_predict :: "('a, 'p, 'y, 'l, 's) cpi \<Rightarrow> 'a ndarray \<Rightarrow> 'p" where
  "estimator_predict c X =
     (if score_proba c then e_predict_proba (estimator c) X else e_predict (estimator c) X)"

text \<open>\<open>for _ in range(self.n_perm)\<close>, with \<open>list_y_pred_perm\<close> as the result.\<close>

fun perm_loop ::
  "('a::{plus,minus}, 'm, 's, 'l) env \<Rightarrow> ('a, 'p, 'y, 'l, 's) cpi \<Rightarrow> 'a ndarray \<Rightarrow>
   'a ndarray \<Rightarrow> 'a ndarray \<Rightarrow> 'a ndarray \<Rightarrow> int list \<Rightarrow> nat list \<Rightarrow> nat \<Rightarrow> 's \<Rightarrow>
   error + ('p list \<times> 's)" where
  "perm_loop env c X X_minus_j X_j_hat residual_j group_ids non_group_ids 0 s = Inr ([], s)"
| "perm_loop env c X X_minus_j X_j_hat residual_j group_ids non_group_ids (Suc n) s =
     (case X_perm_round env X X_minus_j X_j_hat residual_j group_ids non_group_ids s of
        Inl e \<Rightarrow> Inl e
      | Inr (X_perm, s') \<Rightarrow>
          (case perm_loop env c X X_minus_j X_j_hat residual_j group_ids non_group_ids n s' of
             Inl e \<Rightarrow> Inl e
           | Inr (ys, s'') \<Rightarrow> Inr (estimator_predict c X_perm # ys, s'')))"

text \<open>
  The task \<open>joblib_predict_one_gp(imputation_model, X, j)\<close>. It reads \<open>self.rng\<close> and
  leaves it advanced: \<open>s\<close> is the generator's state when the task starts.
\<close>

definition joblib_predict_one_gp ::
  "('a::{plus,minus}, 'm, 's, 'l) env \<Rightarrow> ('a, 'p, 'y, 'l, 's) cpi \<Rightarrow> 'm \<Rightarrow> 'a ndarray \<Rightarrow>
   nat \<Rightarrow> 's \<Rightarrow> error + ('p list \<times> 's)" where
  "joblib_predict_one_gp env c imp_model X j s =
     (case groups c of
        None \<Rightarrow> Inl TypeError
      | Some g \<Rightarrow>
     (case dict_get g (IntKey (int j)) of
        Inl e \<Rightarrow> Inl e
      | Inr group_ids \<Rightarrow>
     (case take_cols X group_ids of
        Inl e \<Rightarrow> Inl e
      | Inr X_j \<Rightarrow>
     (case np_delete X group_ids of
        Inl e \<Rightarrow> Inl e
      | Inr X_minus_j \<Rightarrow>
     (case reshape (m_predict env imp_model X_minus_j) (nrows X_j) (ncols X_j) of
        Inl e \<Rightarrow> Inl e
      | Inr X_j_hat \<Rightarrow>
     (case delete_arange (ncols X) group_ids of
        Inl e \<Rightarrow> Inl e
      | Inr non_group_ids \<Rightarrow>
          perm_loop env c X X_minus_j X_j_hat (array_sub X_j X_j_hat)
            group_ids non_group_ids (nat (n_perm c)) s))))))"

text \<open>
  The parallel map over the groups, run as for \<open>fit\<close>: task after task in the calling
  process, each task starting from the generator as the task before left it.
\<close>

fun predict_all ::
  "('a::{plus,minus}, 'm, 's, 'l) env \<Rightarrow> ('a, 'p, 'y, 'l, 's) cpi \<Rightarrow> 'a ndarray \<Rightarrow>
   'm list \<Rightarrow> nat \<Rightarrow> 's \<Rightarrow> error + ('p list list \<times> 's)" where
  "predict_all env c X [] j s = Inr ([], s)"
| "predict_all env c X (m # ms) j s =
     (case joblib_predict_one_gp env c m X j s of
        Inl e \<Rightarrow> Inl e
      | Inr (out, s') \<Rightarrow>
          (case predict_all env c X ms (Suc j) s' of
             Inl e \<Rightarrow> Inl e
           | Inr (outs, s'') \<Rightarrow> Inr (out # outs, s'')))"

text \<open>
  \<open>predict\<close> returns the stacked predictions, axis 0 the tasks and axis 1 the rounds, and
  leaves the instance with its generator advanced.
\<close>

definition predict ::
  "('a::{plus,minus}, 'm, 's, 'l) env \<Rightarrow> ('a, 'p, 'y, 'l, 's) cpi \<Rightarrow> 'a ndarray \<Rightarrow> 'y \<Rightarrow>
   'm heap \<Rightarrow> error + ('p list list \<times> ('a, 'p, 'y, 'l, 's) cpi)" where
  "predict env c X y h =
     (if list_imputation_mod c = [] then Inl (ValueError ''fit must be called before predict'')
      else if \<not> list_all (\<lambda>a. m_fitted env (h ! a)) (list_imputation_mod c)
      then Inl NotFittedError
      else case predict_all env c X (map (\<lambda>a. h ! a) (list_imputation_mod c)) 0 (rng c) of
             Inl e \<Rightarrow> Inl e
           | Inr (out_list, s') \<Rightarrow> Inr (out_list, c\<lparr>rng := s'\<rparr>))"

subsection \<open>score\<close>

record 'l out_dict =
  loss_reference :: 'l
  loss_perm :: "(nat \<times> 'l list) list"
  importance :: "'l list"

text \<open>
  \<open>[np.mean(out_dict["loss_perm"][j]) - loss_reference for j in range(self.nb_groups)]\<close>
\<close>

fun importance_list ::
  "('a, 'm, 's, 'l::minus) env \<Rightarrow> (nat \<times> 'l list) list \<Rightarrow> 'l \<Rightarrow> nat list \<Rightarrow>
   error + 'l list" where
  "importance_list env lp ref [] = Inr []"
| "importance_list env lp ref (j # js) =
     (case dict_get lp j of
        Inl e \<Rightarrow> Inl e
      | Inr ls \<Rightarrow>
          (case importance_list env lp ref js of
             Inl e \<Rightarrow> Inl e
           | Inr r \<Rightarrow> Inr ((np_mean env ls - ref) # r)))"

definition score ::
  "('a::{plus,minus}, 'm, 's, 'l::minus) env \<Rightarrow> ('a, 'p, 'y, 'l, 's) cpi \<Rightarrow> 'a ndarray \<Rightarrow>
   'y \<Rightarrow> 'm heap \<Rightarrow> error + ('l out_dict \<times> ('a, 'p, 'y, 'l, 's) cpi)" where
  "score env c X y h =
     (if \<not> e_fitted (estimator c) then Inl NotFittedError
      else if list_imputation_mod c = [] then Inl (ValueError ''fit must be called before score'')
      else if \<not> list_all (\<lambda>a. m_fitted env (h ! a)) (list_imputation_mod c)
      then Inl NotFittedError
      else
        let y_pred = estimator_predict c X;
            ref = loss c y y_pred
        in case predict env c X y h of
             Inl e \<Rightarrow> Inl e
           | Inr (y_pred_perm, c') \<Rightarrow>
               let lp = map (\<lambda>(j, y_pred_j). (j, map (loss c y) y_pred_j))
                            (enumerate 0 y_pred_perm)
               in (case nb_groups c' of
                     None \<Rightarrow> Inl AttributeError
                   | Some nb \<Rightarrow>
                       (case importance_list env lp ref [0..<nb] of
                          Inl e \<Rightarrow> Inl e
                        | Inr imp \<Rightarrow>
                            Inr (\<lparr>loss_reference = ref, loss_perm = lp, importance = imp\<rparr>,
                                 c'))))"

subsection \<open>Auxiliary functions for stating properties\<close>

text \<open>
  The design matrices \<open>X_perm\<close> are local to the loop of \<open>joblib_predict_one_gp\<close>.
  \<open>X_perm_rounds\<close> and \<open>perm_designs\<close> follow the loop and the task line by line and
  return the matrices instead of the predictions made on them; \<open>with_predictions\<close> is
  what the task does with each of them (lemma \<open>joblib_predict_one_gp_designs\<close>).
\<close>

fun X_perm_rounds ::
  "('a::{plus,minus}, 'm, 's, 'l) env \<Rightarrow> 'a ndarray \<Rightarrow> 'a ndarray \<Rightarrow> 'a ndarray \<Rightarrow>
   'a ndarray \<Rightarrow> int list \<Rightarrow> nat list \<Rightarrow> nat \<Rightarrow> 's \<Rightarrow> error + ('a ndarray list \<times> 's)" where
  "X_perm_rounds env X X_minus_j X_j_hat residual_j group_ids non_group_ids 0 s = Inr ([], s)"
| "X_perm_rounds env X X_minus_j X_j_hat residual_j group_ids non_group_ids (Suc n) s =
     (case X_perm_round env X X_minus_j X_j_hat residual_j group_ids non_group_ids s of
        Inl e \<Rightarrow> Inl e
      | Inr (X_perm, s') \<Rightarrow>
          (case X_perm_rounds env X X_minus_j X_j_hat residual_j group_ids non_group_ids n s' of
             Inl e \<Rightarrow> Inl e
           | Inr (Xs, s'') \<Rightarrow> Inr (X_perm # Xs, s'')))"

definition perm_designs ::
  "('a::{plus,minus}, 'm, 's, 'l) env \<Rightarrow> ('a, 'p, 'y, 'l, 's) cpi \<Rightarrow> 'm \<Rightarrow> 'a ndarray \<Rightarrow>
   nat \<Rightarrow> 's \<Rightarrow> error + ('a ndarray list \<times> 's)" where
  "perm_designs env c imp_model X j s =
     (case groups c of
        None \<Rightarrow> Inl TypeError
      | Some g \<Rightarrow>
     (case dict_get g (IntKey (int j)) of
        Inl e \<Rightarrow> Inl e
      | Inr group_ids \<Rightarrow>
     (case take_cols X group_ids of
        Inl e \<Rightarrow> Inl e
      | Inr X_j \<Rightarrow>
     (case np_delete X group_ids of
        Inl e \<Rightarrow> Inl e
      | Inr X_minus_j \<Rightarrow>
     (case reshape (m_predict env imp_model X_minus_j) (nrows X_j) (ncols X_j) of
        Inl e \<Rightarrow> Inl e
      | Inr X_j_hat \<Rightarrow>
     (case delete_arange (ncols X) group_ids of
        Inl e \<Rightarrow> Inl e
      | Inr non_group_ids \<Rightarrow>
          X_perm_rounds env X X_minus_j X_j_hat (array_sub X_j X_j_hat)
            group_ids non_group_ids (nat (n_perm c)) s))))))"

definition with_predictions ::
  "('a, 'p, 'y, 'l, 's) cpi \<Rightarrow> error + ('a ndarray list \<times> 's) \<Rightarrow> error + ('p list \<times> 's)" where
  "with_predictions c r =
     (case r of Inl e \<Rightarrow> Inl e | Inr (Xs, s') \<Rightarrow> Inr (map (estimator_predict c) Xs, s'))"

text \<open>The generator's state after one \<open>permutation\<close> of an array of \<open>n\<close> rows.\<close>

definition rs_advance :: "('a, 'm, 's, 'l) env \<Rightarrow> nat \<Rightarrow> 's \<Rightarrow> 's" where
  "rs_advance env n s = snd (rs_permutation env s n)"

text \<open>
  The generator's state when task \<open>j\<close> of \<open>predict\<close> starts: the tasks before it have
  drawn \<open>n_perm\<close> permutations each.
\<close>

definition task_rng ::
  "('a, 'm, 's, 'l) env \<Rightarrow> ('a, 'p, 'y, 'l, 's) cpi \<Rightarrow> 'a ndarray \<Rightarrow> nat \<Rightarrow> 's" where
  "task_rng env c X j = (rs_advance env (nrows X) ^^ (j * nat (n_perm c))) (rng c)"

text \<open>
  The two arrays that \<open>joblib_fit_one_gp\<close> and \<open>joblib_predict_one_gp\<close> compute first:
  \<open>X_j\<close> and \<open>X_minus_j\<close>.
\<close>

definition group_split ::
  "('a, 'p, 'y, 'l, 's) cpi \<Rightarrow> 'a ndarray \<Rightarrow> nat \<Rightarrow> error + ('a ndarray \<times> 'a ndarray)" where
  "group_split c X j =
     (case groups c of
        None \<Rightarrow> Inl TypeError
      | Some g \<Rightarrow>
     (case dict_get g (IntKey (int j)) of
        Inl e \<Rightarrow> Inl e
      | Inr ids \<Rightarrow>
     (case take_cols X ids of
        Inl e \<Rightarrow> Inl e
      | Inr X_j \<Rightarrow>
     (case np_delete X ids of
        Inl e \<Rightarrow> Inl e
      | Inr X_minus_j \<Rightarrow> Inr (X_j, X_minus_j)))))"


text \<open>
  Two constructor arguments \<open>imputation_model\<close>, each in its store, that are equal as
  values: single models in the same state, or lists of pairwise different objects whose
  states are the same one by one.
\<close>

definition same_models :: "'m heap \<Rightarrow> imputation_arg \<Rightarrow> 'm heap \<Rightarrow> imputation_arg \<Rightarrow> bool" where
  "same_models h1 imp1 h2 imp2 =
     (case (imp1, imp2) of
        (Single a1, Single a2) \<Rightarrow> h1 ! a1 = h2 ! a2
      | (ModelList ms1, ModelList ms2) \<Rightarrow>
          distinct ms1 \<and> distinct ms2 \<and> valid_addrs h1 ms1 \<and> valid_addrs h2 ms2 \<and>
          map (\<lambda>a. h1 ! a) ms1 = map (\<lambda>a. h2 ! a) ms2
      | _ \<Rightarrow> False)"

subsection \<open>A concrete instance\<close>

text \<open>
  A small instance on which the model runs: integer arrays, an imputation model that
  predicts for every row the first row it was fitted on, a generator that rotates, and a
  predictive model that sums each row.
\<close>

datatype demo_model = Unfitted | Fitted "int list"

definition demo_env :: "(int, demo_model, nat, int) env" where
  "demo_env =
     \<lparr>m_fitted = (\<lambda>m. case m of Unfitted \<Rightarrow> False | Fitted r \<Rightarrow> True),
      m_clone = (\<lambda>m. Unfitted),
      m_fit = (\<lambda>m A B. Fitted (case rows B of [] \<Rightarrow> replicate (ncols B) 0 | r # rs \<Rightarrow> r)),
      m_predict = (\<lambda>m A. case m of Unfitted \<Rightarrow> [] | Fitted r \<Rightarrow> concat (replicate (nrows A) r)),
      rs_seed = nat,
      rs_permutation = (\<lambda>s n. (rotate (Suc s) [0..<n], Suc s)),
      np_mean = (\<lambda>xs. sum_list xs div int (length xs)),
      np_empty = 0\<rparr>"

definition demo_est :: "(int, int list) estimator" where
  "demo_est =
     \<lparr>e_fitted = True,
      e_predict = (\<lambda>X. map sum_list (rows X)),
      e_predict_proba = (\<lambda>X. map (\<lambda>r. 2 * sum_list r) (rows X))\<rparr>"

definition demo_loss :: "int list \<Rightarrow> int list \<Rightarrow> int" where
  "demo_loss y p = sum_list (map2 (\<lambda>a b. (a - b) * (a - b)) y p)"

definition demo_X :: "int ndarray" where
  "demo_X = \<lparr>ncols = 2, rows = [[1, 10], [2, 20], [4, 40]]\<rparr>"

definition demo_y :: "int list" where
  "demo_y = [11, 22, 44]"

text \<open>
  The instance built from one unfitted imputation model at address 0, with two
  permutation rounds, no groups and seed 0; then the same instance and the store after
  \<open>fit\<close>, and what \<open>predict\<close> and \<open>score\<close> return for it.
\<close>

definition demo_heap0 :: "demo_model heap" where
  "demo_heap0 = [Unfitted]"

definition demo_cpi0 :: "(int, int list, int list, int, nat) cpi" where
  "demo_cpi0 =
     \<lparr>estimator = demo_est,
      imputation_model = Single 0,
      list_imputation_mod = [],
      n_perm = 2,
      groups = None,
      random_state = Some 0,
      loss = demo_loss,
      score_proba = False,
      n_jobs = 1,
      rng = 0,
      nb_groups = None\<rparr>"

definition demo_heap1 :: "demo_model heap" where
  "demo_heap1 = [Unfitted, Fitted [1], Fitted [10]]"

definition demo_cpi1 :: "(int, int list, int list, int, nat) cpi" where
  "demo_cpi1 =
     demo_cpi0\<lparr>list_imputation_mod := [1, 2],
               groups := Some [(IntKey 0, [0]), (IntKey 1, [1])],
               nb_groups := Some 2\<rparr>"

definition demo_out :: "int list list list" where
  "demo_out = [[[12, 24, 41], [14, 21, 42]], [[11, 22, 44], [21, 42, 14]]]"

definition demo_out_dict :: "int out_dict" where
  "demo_out_dict =
     \<lparr>loss_reference = 0,
      loss_perm = [(0, [14, 14]), (1, [0, 1400])],
      importance = [14, 700]\<rparr>"

text \<open>
  Two more instances: one that differs from the fitted one in group 0 only, and one built
  from a list of one imputation model that is fitted already.
\<close>

definition demo_cpi_wide :: "(int, int list, int list, int, nat) cpi" where
  "demo_cpi_wide = demo_cpi1\<lparr>groups := Some [(IntKey 0, [0, 1]), (IntKey 1, [1])]\<rparr>"

definition demo_heap_wide :: "demo_model heap" where
  "demo_heap_wide = [Unfitted, Fitted [1, 10], Fitted [10]]"

definition demo_out_wide :: "int list list list" where
  "demo_out_wide = [[[22, 44, 11], [44, 11, 22]], [[11, 22, 44], [21, 42, 14]]]"

definition demo_cpi_prefitted :: "(int, int list, int list, int, nat) cpi" where
  "demo_cpi_prefitted =
     demo_cpi0\<lparr>imputation_model := ModelList [0],
               list_imputation_mod := [0],
               groups := Some [(IntKey 0, [0])]\<rparr>"

definition demo_heap_prefitted :: "demo_model heap" where
  "demo_heap_prefitted = [Fitted [1]]"





section \<open>Properties\<close>

subsection \<open>Arrays\<close>



lemma norm_index_nat: "k < n \<Longrightarrow> norm_index n (int k) = Inr k"
  by (simp add: norm_index_def)

lemma norm_ids_nat: "\<forall>k \<in> set ks. k < n \<Longrightarrow> norm_ids n (map int ks) = Inr ks"
  by (induction ks) (simp_all add: norm_index_nat)










lemma perm_loop_designs:
  "perm_loop env c X Xm Xh res gids keep n s =
   with_predictions c (X_perm_rounds env X Xm Xh res gids keep n s)"
  by (induction n arbitrary: s) (auto simp: with_predictions_def split: sum.splits)

lemma joblib_predict_one_gp_designs:
  "joblib_predict_one_gp env c m X j s = with_predictions c (perm_designs env c m X j s)"
  unfolding joblib_predict_one_gp_def perm_designs_def
  by (auto simp: perm_loop_designs with_predictions_def split: option.splits sum.splits)

lemma X_perm_rounds_length:
  "X_perm_rounds env X Xm Xh res gids keep n s = Inr (Xs, s') \<Longrightarrow> length Xs = n"
  by (induction n arbitrary: s Xs) (auto split: sum.splits)









lemma perm_designs_Inr:
  assumes "perm_designs env c m X j s = Inr (Xs, s')"
  obtains g ids gks X_j Xm Xh where
    "groups c = Some g" "dict_get g (IntKey (int j)) = Inr ids"
    "norm_ids (ncols X) ids = Inr gks"
    "take_cols X ids = Inr X_j"
    "X_j = \<lparr>ncols = length gks, rows = map (\<lambda>r. map (\<lambda>k. r ! k) gks) (rows X)\<rparr>"
    "np_delete X ids = Inr Xm"
    "Xm = \<lparr>ncols = length (filter (\<lambda>k. k \<notin> set gks) [0..<ncols X]),
           rows = map (\<lambda>r. map (\<lambda>k. r ! k) (filter (\<lambda>k. k \<notin> set gks) [0..<ncols X])) (rows X)\<rparr>"
    "reshape (m_predict env m Xm) (nrows X_j) (ncols X_j) = Inr Xh"
    "X_perm_rounds env X Xm Xh (array_sub X_j Xh) ids
       (filter (\<lambda>k. k \<notin> set gks) [0..<ncols X]) (nat (n_perm c)) s = Inr (Xs, s')"
  using assms unfolding perm_designs_def take_cols_def np_delete_def delete_arange_def
  by (auto split: option.splits sum.splits)

lemma reshape_Inr:
  assumes "reshape flat n k = Inr A"
  shows "ncols A = k" "nrows A = n" "\<forall>r \<in> set (rows A). length r = k"
proof -
  have len: "length flat = n * k" and A: "A = \<lparr>ncols = k, rows = map (\<lambda>i. take k (drop (i * k) flat)) [0..<n]\<rparr>"
    using assms by (auto simp: reshape_def split: if_splits)
  show "ncols A = k" "nrows A = n" by (simp_all add: A nrows_def)
  have "k \<le> n * k - i * k" if "i < n" for i
  proof -
    have "1 * k \<le> (n - i) * k" using that by (intro mult_le_mono1) simp
    then show ?thesis by (simp add: diff_mult_distrib)
  qed
  then show "\<forall>r \<in> set (rows A). length r = k" by (auto simp: A len)
qed



subsection \<open>The generator through a call of predict\<close>

lemma permutation_snd: "snd (permutation env s A) = rs_advance env (nrows A) s"
  by (simp add: permutation_def rs_advance_def split: prod.splits)

lemma X_perm_round_state:
  "X_perm_round env X Xm Xh res gids keep s = Inr (Xp, s') \<Longrightarrow>
   s' = rs_advance env (nrows res) s"
  using permutation_snd [of env s res]
  by (auto simp: X_perm_round_def Let_def split: prod.splits sum.splits)

lemma X_perm_rounds_state:
  "X_perm_rounds env X Xm Xh res gids keep n s = Inr (Xs, s') \<Longrightarrow>
   s' = (rs_advance env (nrows res) ^^ n) s"
proof (induction n arbitrary: s Xs)
  case 0
  then show ?case by simp
next
  case (Suc n)
  from Suc.prems obtain Xp s1 Xs' where
    r: "X_perm_round env X Xm Xh res gids keep s = Inr (Xp, s1)"
    and rest: "X_perm_rounds env X Xm Xh res gids keep n s1 = Inr (Xs', s')"
    by (auto split: sum.splits)
  have "s1 = rs_advance env (nrows res) s" by (rule X_perm_round_state [OF r])
  with Suc.IH [OF rest] show ?case by (simp add: funpow_swap1)
qed

lemma perm_designs_state:
  assumes "perm_designs env c m X j s = Inr (Xs, s')"
  shows "s' = (rs_advance env (nrows X) ^^ nat (n_perm c)) s"
proof -
  from assms obtain gks X_j Xm Xh ids where f:
    "X_j = \<lparr>ncols = length gks, rows = map (\<lambda>r. map (\<lambda>k. r ! k) gks) (rows X)\<rparr>"
    "reshape (m_predict env m Xm) (nrows X_j) (ncols X_j) = Inr Xh"
    "X_perm_rounds env X Xm Xh (array_sub X_j Xh) ids
       (filter (\<lambda>k. k \<notin> set gks) [0..<ncols X]) (nat (n_perm c)) s = Inr (Xs, s')"
    by (rule perm_designs_Inr) blast
  have "nrows Xh = nrows X" using reshape_Inr(2) [OF f(2)] by (simp add: f(1) nrows_def)
  then have "nrows (array_sub X_j Xh) = nrows X"
    by (simp add: array_sub_def nrows_def f(1))
  with X_perm_rounds_state [OF f(3)] show ?thesis by simp
qed

lemma with_predictions_Inr:
  "with_predictions c r = Inr (ys, s') \<longleftrightarrow>
   (\<exists>Xs. r = Inr (Xs, s') \<and> ys = map (estimator_predict c) Xs)"
  by (auto simp: with_predictions_def split: sum.splits)

lemma joblib_predict_one_gp_state:
  assumes "joblib_predict_one_gp env c m X j s = Inr (ys, s')"
  shows "s' = (rs_advance env (nrows X) ^^ nat (n_perm c)) s"
proof -
  from assms obtain Xs where "perm_designs env c m X j s = Inr (Xs, s')"
    unfolding joblib_predict_one_gp_designs with_predictions_Inr by blast
  then show ?thesis by (rule perm_designs_state)
qed

lemma predict_all_tasks:
  assumes "predict_all env c X ms j0 s = Inr (outs, s')"
  shows "length outs = length ms \<and>
         s' = (rs_advance env (nrows X) ^^ (length ms * nat (n_perm c))) s \<and>
         (\<forall>i < length ms.
            joblib_predict_one_gp env c (ms ! i) X (j0 + i)
              ((rs_advance env (nrows X) ^^ (i * nat (n_perm c))) s)
            = Inr (outs ! i, (rs_advance env (nrows X) ^^ (Suc i * nat (n_perm c))) s))"
  using assms
proof (induction ms arbitrary: j0 s outs)
  case Nil
  then show ?case by simp
next
  case (Cons m ms)
  let ?adv = "rs_advance env (nrows X)"
  let ?np = "nat (n_perm c)"
  from Cons.prems obtain out s1 outs' where
    t: "joblib_predict_one_gp env c m X j0 s = Inr (out, s1)"
    and rest: "predict_all env c X ms (Suc j0) s1 = Inr (outs', s')"
    and outs: "outs = out # outs'"
    by (auto split: sum.splits)
  have s1: "s1 = (?adv ^^ ?np) s" by (rule joblib_predict_one_gp_state [OF t])
  note ih = Cons.IH [OF rest]
  have shift: "(?adv ^^ k) s1 = (?adv ^^ (?np + k)) s" for k
    unfolding s1 add.commute [of ?np k] by (simp add: funpow_add)
  have len: "length outs = length (m # ms)" using ih outs by simp
  have fin: "s' = (?adv ^^ (length (m # ms) * ?np)) s"
    using ih shift [of "length ms * ?np"] by simp
  have each: "joblib_predict_one_gp env c ((m # ms) ! i) X (j0 + i) ((?adv ^^ (i * ?np)) s)
              = Inr (outs ! i, (?adv ^^ (Suc i * ?np)) s)" if "i < length (m # ms)" for i
  proof (cases i)
    case 0
    then show ?thesis using t s1 outs by simp
  next
    case (Suc i')
    then have "i' < length ms" using that by simp
    with ih have "joblib_predict_one_gp env c (ms ! i') X (Suc j0 + i') ((?adv ^^ (i' * ?np)) s1)
              = Inr (outs' ! i', (?adv ^^ (Suc i' * ?np)) s1)" by blast
    then show ?thesis using Suc outs shift [of "i' * ?np"] shift [of "Suc i' * ?np"]
      by simp
  qed
  show ?case using len fin each by blast
qed

lemma predict_Inr:
  assumes "predict env c X y h = Inr (out, c')"
  shows "list_imputation_mod c \<noteq> []"
    and "list_all (\<lambda>a. m_fitted env (h ! a)) (list_imputation_mod c)"
    and "length out = length (list_imputation_mod c)"
    and "c' = c\<lparr>rng := (rs_advance env (nrows X) ^^
                   (length (list_imputation_mod c) * nat (n_perm c))) (rng c)\<rparr>"
    and "\<forall>j < length (list_imputation_mod c).
           joblib_predict_one_gp env c (h ! (list_imputation_mod c ! j)) X j
             ((rs_advance env (nrows X) ^^ (j * nat (n_perm c))) (rng c))
           = Inr (out ! j, (rs_advance env (nrows X) ^^ (Suc j * nat (n_perm c))) (rng c))"
proof -
  from assms have ne: "list_imputation_mod c \<noteq> []"
    and fit: "list_all (\<lambda>a. m_fitted env (h ! a)) (list_imputation_mod c)"
    by (auto simp: predict_def split: if_splits)
  from assms ne fit obtain s' where
    pa: "predict_all env c X (map (\<lambda>a. h ! a) (list_imputation_mod c)) 0 (rng c) = Inr (out, s')"
    and c': "c' = c\<lparr>rng := s'\<rparr>"
    by (auto simp: predict_def split: sum.splits)
  note t = predict_all_tasks [OF pa]
  show "list_imputation_mod c \<noteq> []" by (rule ne)
  show "list_all (\<lambda>a. m_fitted env (h ! a)) (list_imputation_mod c)" by (rule fit)
  show "length out = length (list_imputation_mod c)" using t by simp
  show "c' = c\<lparr>rng := (rs_advance env (nrows X) ^^
                   (length (list_imputation_mod c) * nat (n_perm c))) (rng c)\<rparr>"
    using t c' by simp
  show "\<forall>j < length (list_imputation_mod c).
           joblib_predict_one_gp env c (h ! (list_imputation_mod c ! j)) X j
             ((rs_advance env (nrows X) ^^ (j * nat (n_perm c))) (rng c))
           = Inr (out ! j, (rs_advance env (nrows X) ^^ (Suc j * nat (n_perm c))) (rng c))"
    using t by simp
qed

subsection \<open>The store through a call of fit\<close>

lemma joblib_fit_one_gp_split:
  "joblib_fit_one_gp env c X y est j h =
     (case group_split c X j of
        Inl e \<Rightarrow> Inl e
      | Inr (X_j, X_minus_j) \<Rightarrow>
          (case est of
             None \<Rightarrow> Inl AttributeError
           | Some a \<Rightarrow> Inr (a, h[a := m_fit env (h ! a) X_minus_j X_j])))"
  by (simp add: joblib_fit_one_gp_def group_split_def split: option.splits sum.splits)

lemma fit_all_frame:
  assumes "fit_all env c X y ests j0 h = Inr (as, h')"
  shows "ests = map Some as \<and> length h' = length h \<and> (\<forall>b. b \<notin> set as \<longrightarrow> h' ! b = h ! b)"
  using assms
proof (induction ests arbitrary: j0 h as)
  case Nil
  then show ?case by simp
next
  case (Cons est ests)
  from Cons.prems obtain a h1 as' where
    t: "joblib_fit_one_gp env c X y est j0 h = Inr (a, h1)"
    and rest: "fit_all env c X y ests (Suc j0) h1 = Inr (as', h')"
    and as: "as = a # as'"
    by (auto split: sum.splits)
  from t obtain X_j Xm where est: "est = Some a" and h1: "h1 = h[a := m_fit env (h ! a) Xm X_j]"
    by (auto simp: joblib_fit_one_gp_split split: sum.splits option.splits)
  from Cons.IH [OF rest] show ?case by (auto simp: as est h1)
qed

lemma fit_all_values:
  assumes "fit_all env c X y (map Some as) j0 h = Inr (as', h')"
    and "distinct as" and "\<forall>a \<in> set as. a < length h"
  shows "\<forall>i < length as. \<exists>X_j Xm. group_split c X (j0 + i) = Inr (X_j, Xm) \<and>
           h' ! (as ! i) = m_fit env (h ! (as ! i)) Xm X_j"
  using assms
proof (induction as arbitrary: j0 h as')
  case Nil
  then show ?case by simp
next
  case (Cons a as)
  from Cons.prems(1) obtain a1 h1 as1 where
    t: "joblib_fit_one_gp env c X y (Some a) j0 h = Inr (a1, h1)"
    and rest: "fit_all env c X y (map Some as) (Suc j0) h1 = Inr (as1, h')"
    by (auto split: sum.splits)
  from t obtain X_j Xm where sp: "group_split c X j0 = Inr (X_j, Xm)"
    and h1: "h1 = h[a := m_fit env (h ! a) Xm X_j]"
    by (auto simp: joblib_fit_one_gp_split split: sum.splits)
  have fr: "map Some as = map Some as1 \<and> length h' = length h1 \<and>
            (\<forall>b. b \<notin> set as1 \<longrightarrow> h' ! b = h1 ! b)"
    by (rule fit_all_frame [OF rest])
  then have as1: "as1 = as" by (simp add: inj_map_eq_map)
  have a_notin: "a \<notin> set as" using Cons.prems(2) by simp
  have valid: "\<forall>b \<in> set as. b < length h1" using Cons.prems(3) by (simp add: h1)
  have ih: "\<forall>i < length as. \<exists>X_j Xm. group_split c X (Suc j0 + i) = Inr (X_j, Xm) \<and>
           h' ! (as ! i) = m_fit env (h1 ! (as ! i)) Xm X_j"
    using Cons.IH [OF rest] Cons.prems(2) valid by simp
  show ?case
  proof (intro allI impI)
    fix i assume i: "i < length (a # as)"
    show "\<exists>X_j Xm. group_split c X (j0 + i) = Inr (X_j, Xm) \<and>
           h' ! ((a # as) ! i) = m_fit env (h ! ((a # as) ! i)) Xm X_j"
    proof (cases i)
      case 0
      have "h' ! a = h1 ! a" using fr a_notin as1 by simp
      also have "\<dots> = m_fit env (h ! a) Xm X_j" using Cons.prems(3) by (simp add: h1)
      finally show ?thesis using 0 sp by simp
    next
      case (Suc i')
      then have i': "i' < length as" using i by simp
      then have "as ! i' \<noteq> a" using a_notin by (metis nth_mem)
      then have e: "h1 ! (as ! i') = h ! (as ! i')" by (simp add: h1)
      from ih i' obtain X_j' Xm' where "group_split c X (Suc j0 + i') = Inr (X_j', Xm')"
        "h' ! (as ! i') = m_fit env (h1 ! (as ! i')) Xm' X_j'" by blast
      then show ?thesis using e by (simp add: Suc)
    qed
  qed
qed

lemma fit_all_split_ok:
  assumes "fit_all env c X y ests j0 h = Inr (as, h')"
  shows "\<forall>i < length ests. \<exists>X_j Xm. group_split c X (j0 + i) = Inr (X_j, Xm)"
  using assms
proof (induction ests arbitrary: j0 h as)
  case Nil
  then show ?case by simp
next
  case (Cons est ests)
  from Cons.prems obtain a h1 as' where
    t: "joblib_fit_one_gp env c X y est j0 h = Inr (a, h1)"
    and rest: "fit_all env c X y ests (Suc j0) h1 = Inr (as', h')"
    by (auto split: sum.splits)
  from t obtain X_j Xm where sp: "group_split c X j0 = Inr (X_j, Xm)"
    by (auto simp: joblib_fit_one_gp_split split: sum.splits)
  show ?case
  proof (intro allI impI)
    fix i assume "i < length (est # ests)"
    then show "\<exists>X_j Xm. group_split c X (j0 + i) = Inr (X_j, Xm)"
      using sp Cons.IH [OF rest] by (cases i) auto
  qed
qed

lemma fit_all_succeeds:
  assumes "\<forall>i < length as. \<exists>X_j Xm. group_split c X (j0 + i) = Inr (X_j, Xm)"
  shows "\<exists>h'. fit_all env c X y (map Some as) j0 h = Inr (as, h')"
  using assms
proof (induction as arbitrary: j0 h)
  case Nil
  then show ?case by simp
next
  case (Cons a as)
  from Cons.prems obtain X_j Xm where sp: "group_split c X j0 = Inr (X_j, Xm)" by force
  have "\<forall>i < length as. \<exists>X_j Xm. group_split c X (Suc j0 + i) = Inr (X_j, Xm)"
    using Cons.prems by force
  from Cons.IH [OF this] obtain h' where
    "fit_all env c X y (map Some as) (Suc j0) (h[a := m_fit env (h ! a) Xm X_j]) = Inr (as, h')"
    by blast
  then show ?case by (simp add: joblib_fit_one_gp_split sp)
qed

subsection \<open>Running the concrete instance\<close>

lemmas demo_defs = demo_env_def demo_est_def demo_loss_def demo_X_def demo_y_def
  demo_heap0_def demo_cpi0_def demo_heap1_def demo_cpi1_def demo_out_def demo_out_dict_def

lemma demo_init:
  "CPI_init demo_env demo_est (Single 0) 2 None demo_loss False (Some 0) 1 7 = Inr demo_cpi0"
  by (simp add: CPI_init_def RandomState_def demo_defs)

lemma demo_fit: "fit demo_env demo_cpi0 demo_X demo_y demo_heap0 = Inr (demo_cpi1, demo_heap1)"
  by (simp add: fit_def clone_models_def joblib_fit_one_gp_def singleton_groups_def
      dict_get_def take_cols_def np_delete_def delete_arange_def norm_index_def
      upt_rec [of 0] eval_nat_numeral demo_defs)

lemmas eval_defs = dict_get_def take_cols_def np_delete_def delete_arange_def norm_index_def
  reshape_def array_sub_def array_add_def assign_cols_def assign_row_def permutation_def
  np_empty_like_def nrows_def X_perm_round_def estimator_predict_def
  upt_rec [of 0] upt_rec [of 1] upt_rec [of 2] upt_rec [of 3] eval_nat_numeral rotate_def rotate1_def Let_def

lemma demo_predict:
  "predict demo_env demo_cpi1 demo_X demo_y demo_heap1 = Inr (demo_out, demo_cpi1\<lparr>rng := 4\<rparr>)"
  by (simp add: predict_def joblib_predict_one_gp_def eval_defs demo_defs)

lemma demo_score:
  "score demo_env demo_cpi1 demo_X demo_y demo_heap1 = Inr (demo_out_dict, demo_cpi1\<lparr>rng := 4\<rparr>)"
  by (simp add: score_def predict_def joblib_predict_one_gp_def eval_defs demo_defs enumerate_eq_zip)

subsection \<open>The perturbed design matrices\<close>

lemma predict_designs:
  assumes p: "predict env c X y h = Inr (out, c')" and j: "j < length (list_imputation_mod c)"
  shows "\<exists>Xs. perm_designs env c (h ! (list_imputation_mod c ! j)) X j (task_rng env c X j)
             = Inr (Xs, task_rng env c X (Suc j)) \<and>
           out ! j = map (estimator_predict c) Xs"
proof -
  from predict_Inr(5) [OF p] j have
    "joblib_predict_one_gp env c (h ! (list_imputation_mod c ! j)) X j (task_rng env c X j)
     = Inr (out ! j, task_rng env c X (Suc j))"
    by (simp add: task_rng_def)
  then show ?thesis
    unfolding joblib_predict_one_gp_designs with_predictions_Inr by blast
qed

lemma predict_task_designs:
  assumes p: "predict env c X y h = Inr (out, c')" and j: "j < length (list_imputation_mod c)"
  shows "\<exists>Xs. perm_designs env c (h ! (list_imputation_mod c ! j)) X j (task_rng env c X j)
             = Inr (Xs, task_rng env c X (Suc j)) \<and>
           out ! j = map (estimator_predict c) Xs \<and> length Xs = nat (n_perm c)"
proof -
  from predict_designs [OF p j] obtain Xs where
    pd: "perm_designs env c (h ! (list_imputation_mod c ! j)) X j (task_rng env c X j)
             = Inr (Xs, task_rng env c X (Suc j))"
    and o: "out ! j = map (estimator_predict c) Xs" by blast
  from pd obtain X_j Xm Xh ids keep where
    "X_perm_rounds env X Xm Xh (array_sub X_j Xh) ids keep (nat (n_perm c)) (task_rng env c X j)
     = Inr (Xs, task_rng env c X (Suc j))"
    by (rule perm_designs_Inr) blast
  then have "length Xs = nat (n_perm c)" by (rule X_perm_rounds_length)
  with pd o show ?thesis by blast
qed








lemmas demo_defs2 = demo_cpi_wide_def demo_heap_wide_def demo_out_wide_def
  demo_cpi_prefitted_def demo_heap_prefitted_def

lemma demo_predict_wide:
  "predict demo_env demo_cpi_wide demo_X demo_y demo_heap_wide
   = Inr (demo_out_wide, demo_cpi_wide\<lparr>rng := 4\<rparr>)"
  by (simp add: predict_def joblib_predict_one_gp_def eval_defs demo_defs demo_defs2)

subsection \<open>The result of predict\<close>



subsection \<open>What the tasks of predict share\<close>

lemma joblib_predict_one_gp_cong:
  assumes "estimator c2 = estimator c1" "score_proba c2 = score_proba c1"
    and "n_perm c2 = n_perm c1"
    and "groups c1 = Some g1" "groups c2 = Some g2"
    and "dict_get g2 (IntKey (int j)) = dict_get g1 (IntKey (int j))"
  shows "joblib_predict_one_gp env c2 m X j s = joblib_predict_one_gp env c1 m X j s"
proof -
  have "estimator_predict c2 = estimator_predict c1"
    using assms(1,2) by (simp add: estimator_predict_def fun_eq_iff)
  then have "perm_loop env c2 X Xm Xh res gids keep n s = perm_loop env c1 X Xm Xh res gids keep n s"
    for Xm Xh res gids keep n
    by (simp add: perm_loop_designs with_predictions_def split: sum.splits)
  then show ?thesis
    using assms(3-6)
    by (simp add: joblib_predict_one_gp_def split: sum.splits)
qed

text \<open>
  Claim C6, as the code has it. The tasks of \<open>predict\<close> share one piece of mutable state,
  the generator of the instance: task \<open>j\<close> starts from the generator as the
  \<open>j * n_perm\<close> permutations of the tasks before it have left it. Nothing else is shared.
  So two instances with the same estimator, \<open>n_perm\<close>, \<open>score_proba\<close> and generator, which
  agree on the columns and on the imputation model of group \<open>j\<close>, return the same
  predictions for group \<open>j\<close>, whatever their other groups and models are; and \<open>predict\<close>
  changes nothing of the instance but the generator.
\<close>

theorem predict_tasks_share_only_rng:
  assumes p1: "predict env c1 X y h1 = Inr (out1, c1')"
    and p2: "predict env c2 X y h2 = Inr (out2, c2')"
    and j: "j < length (list_imputation_mod c1)" "j < length (list_imputation_mod c2)"
    and same: "estimator c2 = estimator c1" "score_proba c2 = score_proba c1"
              "n_perm c2 = n_perm c1" "rng c2 = rng c1"
    and grp: "groups c1 = Some g1" "groups c2 = Some g2"
             "dict_get g2 (IntKey (int j)) = dict_get g1 (IntKey (int j))"
    and mdl: "h2 ! (list_imputation_mod c2 ! j) = h1 ! (list_imputation_mod c1 ! j)"
  shows "out2 ! j = out1 ! j \<and>
         joblib_predict_one_gp env c1 (h1 ! (list_imputation_mod c1 ! j)) X j
           ((rs_advance env (nrows X) ^^ (j * nat (n_perm c1))) (rng c1))
         = Inr (out1 ! j, (rs_advance env (nrows X) ^^ (Suc j * nat (n_perm c1))) (rng c1)) \<and>
         c1' = c1\<lparr>rng := (rs_advance env (nrows X) ^^
                     (length (list_imputation_mod c1) * nat (n_perm c1))) (rng c1)\<rparr>"
proof -
  let ?s = "(rs_advance env (nrows X) ^^ (j * nat (n_perm c1))) (rng c1)"
  let ?s' = "(rs_advance env (nrows X) ^^ (Suc j * nat (n_perm c1))) (rng c1)"
  have t1: "joblib_predict_one_gp env c1 (h1 ! (list_imputation_mod c1 ! j)) X j ?s
            = Inr (out1 ! j, ?s')"
    using predict_Inr(5) [OF p1] j(1) by blast
  have "joblib_predict_one_gp env c2 (h2 ! (list_imputation_mod c2 ! j)) X j ?s
            = Inr (out2 ! j, ?s')"
    using predict_Inr(5) [OF p2] j(2) same(3,4) by simp
  then have "joblib_predict_one_gp env c1 (h1 ! (list_imputation_mod c1 ! j)) X j ?s
            = Inr (out2 ! j, ?s')"
    unfolding joblib_predict_one_gp_cong [OF same(1-3) grp] mdl .
  with t1 have "out2 ! j = out1 ! j" by simp
  with t1 predict_Inr(4) [OF p1] show ?thesis by blast
qed

theorem predict_tasks_share_only_rng_witness:
  "predict demo_env demo_cpi1 demo_X demo_y demo_heap1 = Inr (demo_out, demo_cpi1\<lparr>rng := 4\<rparr>) \<and>
   predict demo_env demo_cpi_wide demo_X demo_y demo_heap_wide
     = Inr (demo_out_wide, demo_cpi_wide\<lparr>rng := 4\<rparr>) \<and>
   1 < length (list_imputation_mod demo_cpi1) \<and> 1 < length (list_imputation_mod demo_cpi_wide) \<and>
   estimator demo_cpi_wide = estimator demo_cpi1 \<and>
   score_proba demo_cpi_wide = score_proba demo_cpi1 \<and>
   n_perm demo_cpi_wide = n_perm demo_cpi1 \<and> rng demo_cpi_wide = rng demo_cpi1 \<and>
   groups demo_cpi1 = Some [(IntKey 0, [0]), (IntKey 1, [1])] \<and>
   groups demo_cpi_wide = Some [(IntKey 0, [0, 1]), (IntKey 1, [1])] \<and>
   dict_get [(IntKey 0, [0, 1]), (IntKey 1, [1::int])] (IntKey (int 1))
     = dict_get [(IntKey 0, [0]), (IntKey 1, [1])] (IntKey (int 1)) \<and>
   demo_heap_wide ! (list_imputation_mod demo_cpi_wide ! 1)
     = demo_heap1 ! (list_imputation_mod demo_cpi1 ! 1) \<and>
   demo_out_wide ! 0 \<noteq> demo_out ! 0 \<and>
   demo_out_wide ! 1 = demo_out ! 1 \<and>
   joblib_predict_one_gp demo_env demo_cpi1 (demo_heap1 ! (list_imputation_mod demo_cpi1 ! 1)) demo_X 1
     ((rs_advance demo_env (nrows demo_X) ^^ (1 * nat (n_perm demo_cpi1))) (rng demo_cpi1))
   = Inr (demo_out ! 1,
          (rs_advance demo_env (nrows demo_X) ^^ (Suc 1 * nat (n_perm demo_cpi1))) (rng demo_cpi1)) \<and>
   demo_cpi1\<lparr>rng := 4\<rparr>
   = demo_cpi1\<lparr>rng := (rs_advance demo_env (nrows demo_X) ^^
        (length (list_imputation_mod demo_cpi1) * nat (n_perm demo_cpi1))) (rng demo_cpi1)\<rparr>"
proof -
  have j: "1 < length (list_imputation_mod demo_cpi1)"
    "1 < length (list_imputation_mod demo_cpi_wide)"
    by (simp_all add: demo_defs demo_defs2)
  have same: "estimator demo_cpi_wide = estimator demo_cpi1"
    "score_proba demo_cpi_wide = score_proba demo_cpi1"
    "n_perm demo_cpi_wide = n_perm demo_cpi1" "rng demo_cpi_wide = rng demo_cpi1"
    by (simp_all add: demo_defs demo_defs2)
  have grp: "groups demo_cpi1 = Some [(IntKey 0, [0]), (IntKey 1, [1])]"
    "groups demo_cpi_wide = Some [(IntKey 0, [0, 1]), (IntKey 1, [1])]"
    "dict_get [(IntKey 0, [0, 1]), (IntKey 1, [1::int])] (IntKey (int 1))
     = dict_get [(IntKey 0, [0]), (IntKey 1, [1])] (IntKey (int 1))"
    by (simp_all add: demo_defs demo_defs2 dict_get_def)
  have mdl: "demo_heap_wide ! (list_imputation_mod demo_cpi_wide ! 1)
     = demo_heap1 ! (list_imputation_mod demo_cpi1 ! 1)"
    by (simp add: demo_defs demo_defs2)
  have diff: "demo_out_wide ! 0 \<noteq> demo_out ! 0" by (simp add: demo_defs demo_defs2)
  from predict_tasks_share_only_rng [OF demo_predict demo_predict_wide j same grp mdl]
    demo_predict demo_predict_wide j same grp mdl diff
  show ?thesis by blast
qed

text \<open>
  Claim C6 as the specification states it fails: the task of group 1, started from the
  instance as it is when \<open>predict\<close> is called, does not return what \<open>predict\<close> returns for
  group 1, because the task of group 0 has drawn from the generator before; and \<open>predict\<close>
  leaves the generator, which the next call reads, changed.
\<close>

theorem predict_tasks_share_rng_counterexample:
  "predict demo_env demo_cpi1 demo_X demo_y demo_heap1 = Inr (demo_out, demo_cpi1\<lparr>rng := 4\<rparr>) \<and>
   joblib_predict_one_gp demo_env demo_cpi1 (demo_heap1 ! 2) demo_X 1 (rng demo_cpi1)
     = Inr ([[21, 42, 14], [41, 12, 24]], 2) \<and>
   demo_out ! 1 \<noteq> [[21, 42, 14], [41, 12, 24]] \<and>
   rng (demo_cpi1\<lparr>rng := 4\<rparr>) \<noteq> rng demo_cpi1"
proof -
  have "joblib_predict_one_gp demo_env demo_cpi1 (demo_heap1 ! 2) demo_X 1 (rng demo_cpi1)
     = Inr ([[21, 42, 14], [41, 12, 24]], 2)"
    by (simp add: joblib_predict_one_gp_def eval_defs demo_defs)
  moreover have "demo_out ! 1 \<noteq> [[21, 42, 14], [41, 12, 24]]" by (simp add: demo_defs)
  moreover have "rng (demo_cpi1\<lparr>rng := 4\<rparr>) \<noteq> rng demo_cpi1" by (simp add: demo_defs)
  ultimately show ?thesis using demo_predict by blast
qed

subsection \<open>score\<close>

lemma importance_list_Inr:
  assumes "importance_list env lp ref js = Inr imp"
  shows "length imp = length js \<and>
         (\<forall>i < length js. \<exists>ls. dict_get lp (js ! i) = Inr ls \<and> imp ! i = np_mean env ls - ref)"
  using assms
proof (induction js arbitrary: imp)
  case Nil
  then show ?case by simp
next
  case (Cons j js)
  from Cons.prems obtain ls r where
    d: "dict_get lp j = Inr ls" and rest: "importance_list env lp ref js = Inr r"
    and imp: "imp = (np_mean env ls - ref) # r"
    by (auto split: sum.splits)
  note ih = Cons.IH [OF rest]
  show ?case
  proof (intro conjI allI impI)
    show "length imp = length (j # js)" using ih imp by simp
  next
    fix i assume "i < length (j # js)"
    then show "\<exists>ls. dict_get lp ((j # js) ! i) = Inr ls \<and> imp ! i = np_mean env ls - ref"
      using d ih imp by (cases i) auto
  qed
qed

lemma dict_get_enumerate:
  assumes "dict_get (map (\<lambda>(j, p). (j, F p)) (enumerate 0 xs)) j = Inr v"
  shows "j < length xs \<and> v = F (xs ! j)"
proof -
  have m: "map_of (map (\<lambda>(j, p). (j, F p)) (enumerate 0 xs)) j = Some v"
    using assms by (auto simp: dict_get_def split: option.splits)
  then have "(j, v) \<in> set (map (\<lambda>(j, p). (j, F p)) (enumerate 0 xs))" by (rule map_of_SomeD)
  then obtain p where "(j, p) \<in> set (enumerate 0 xs)" "v = F p" by auto
  then show ?thesis by (auto simp: in_set_enumerate_eq)
qed

text \<open>
  Claim C1. Whenever \<open>score\<close> returns, the entry \<open>loss_reference\<close> of its dictionary is the
  loss between \<open>y\<close> and the estimator's prediction on the unmodified \<open>X\<close>, and for every
  group \<open>j\<close> the entry \<open>importance\<close> holds at \<open>j\<close> the mean of the losses of the \<open>n_perm\<close>
  predictions that \<open>predict\<close> returns for group \<open>j\<close>, minus that reference loss.
  (That \<open>score\<close> does return for a fitted instance is lemma \<open>score_returns\<close> below.)
\<close>

theorem score_importance:
  assumes sc: "score env c X y h = Inr (out, c')"
  shows "loss_reference out = loss c y (estimator_predict c X) \<and>
         (\<exists>preds nb.
            predict env c X y h = Inr (preds, c') \<and> nb_groups c = Some nb \<and>
            length (importance out) = nb \<and>
            (\<forall>j < nb. j < length preds \<and> length (preds ! j) = nat (n_perm c) \<and>
               importance out ! j
               = np_mean env (map (loss c y) (preds ! j)) - loss c y (estimator_predict c X)))"
proof -
  let ?ref = "loss c y (estimator_predict c X)"
  from sc obtain preds where p: "predict env c X y h = Inr (preds, c')"
    by (auto simp: score_def Let_def split: if_splits sum.splits option.splits)
  let ?lp = "map (\<lambda>(j, y_pred_j). (j, map (loss c y) y_pred_j)) (enumerate 0 preds)"
  have nbc: "nb_groups c' = nb_groups c" using predict_Inr(4) [OF p] by simp
  from sc p nbc obtain nb imp where nb: "nb_groups c = Some nb"
    and il: "importance_list env ?lp ?ref [0..<nb] = Inr imp"
    and out: "out = \<lparr>loss_reference = ?ref, loss_perm = ?lp, importance = imp\<rparr>"
    by (auto simp: score_def Let_def split: if_splits sum.splits option.splits)
  note I = importance_list_Inr [OF il]
  have each: "j < length preds \<and> length (preds ! j) = nat (n_perm c) \<and>
              importance out ! j = np_mean env (map (loss c y) (preds ! j)) - ?ref"
    if j: "j < nb" for j
  proof -
    from I j obtain ls where d: "dict_get ?lp j = Inr ls" and v: "imp ! j = np_mean env ls - ?ref"
      by force
    from dict_get_enumerate [OF d] have jl: "j < length preds"
      and ls: "ls = map (loss c y) (preds ! j)" by simp_all
    have "j < length (list_imputation_mod c)" using jl predict_Inr(3) [OF p] by simp
    from predict_task_designs [OF p this] have "length (preds ! j) = nat (n_perm c)" by auto
    with jl ls v show ?thesis by (simp add: out)
  qed
  have "length (importance out) = nb" using I by (simp add: out)
  with p nb each show ?thesis by (auto simp: out)
qed

theorem score_importance_witness:
  "score demo_env demo_cpi1 demo_X demo_y demo_heap1 = Inr (demo_out_dict, demo_cpi1\<lparr>rng := 4\<rparr>) \<and>
   loss_reference demo_out_dict = loss demo_cpi1 demo_y (estimator_predict demo_cpi1 demo_X) \<and>
   (\<exists>preds nb.
      predict demo_env demo_cpi1 demo_X demo_y demo_heap1 = Inr (preds, demo_cpi1\<lparr>rng := 4\<rparr>) \<and>
      nb_groups demo_cpi1 = Some nb \<and> length (importance demo_out_dict) = nb \<and>
      (\<forall>j < nb. j < length preds \<and> length (preds ! j) = nat (n_perm demo_cpi1) \<and>
         importance demo_out_dict ! j
         = np_mean demo_env (map (loss demo_cpi1 demo_y) (preds ! j))
           - loss demo_cpi1 demo_y (estimator_predict demo_cpi1 demo_X)))"
  using score_importance [OF demo_score] demo_score by blast

subsection \<open>The checks for fitted models\<close>

lemma demo_init_prefitted:
  "CPI_init demo_env demo_est (ModelList [0]) 2 (Some [(IntKey 0, [0])]) demo_loss False (Some 0) 1 7
   = Inr demo_cpi_prefitted"
  by (simp add: CPI_init_def RandomState_def demo_defs demo_defs2)

text \<open>
  Claim C5, as the code has it. The constructor raises when the predictive estimator is not
  fitted. \<open>predict\<close> and \<open>score\<close> raise when the instance holds no imputation model or one
  that is not fitted; in particular they raise \<open>ValueError\<close> for an instance built from a
  single imputation model on which \<open>fit\<close> has not been called.
\<close>

theorem unfitted_raises:
  "(\<not> e_fitted est \<longrightarrow>
      CPI_init env est imp nperm grps lss proba seed njobs fresh = Inl NotFittedError) \<and>
   (list_imputation_mod c = [] \<or>
    \<not> list_all (\<lambda>a. m_fitted env (h ! a)) (list_imputation_mod c) \<longrightarrow>
      isl (predict env c X y h) \<and> isl (score env c X y h)) \<and>
   (CPI_init env est (Single a) nperm grps lss proba seed njobs fresh = Inr c0 \<longrightarrow>
      predict env c0 X y h = Inl (ValueError ''fit must be called before predict'') \<and>
      score env c0 X y h = Inl (ValueError ''fit must be called before score''))"
proof (intro conjI impI)
  assume "\<not> e_fitted est"
  then show "CPI_init env est imp nperm grps lss proba seed njobs fresh = Inl NotFittedError"
    by (simp add: CPI_init_def)
next
  assume a: "list_imputation_mod c = [] \<or>
    \<not> list_all (\<lambda>a. m_fitted env (h ! a)) (list_imputation_mod c)"
  then show "isl (predict env c X y h)" by (auto simp: predict_def)
  from a show "isl (score env c X y h)" by (auto simp: score_def)
next
  assume i: "CPI_init env est (Single a) nperm grps lss proba seed njobs fresh = Inr c0"
  then have l: "list_imputation_mod c0 = []" and e: "e_fitted (estimator c0)"
    by (auto simp: CPI_init_def split: if_splits sum.splits)
  from l show "predict env c0 X y h = Inl (ValueError ''fit must be called before predict'')"
    by (simp add: predict_def)
  from l e show "score env c0 X y h = Inl (ValueError ''fit must be called before score'')"
    by (simp add: score_def)
qed

theorem unfitted_raises_witness:
  "\<not> e_fitted (demo_est\<lparr>e_fitted := False\<rparr>) \<and>
   CPI_init demo_env (demo_est\<lparr>e_fitted := False\<rparr>) (Single 0) 2 None demo_loss False (Some 0) 1 7
     = Inl NotFittedError \<and>
   \<not> list_all (\<lambda>a. m_fitted demo_env (demo_heap0 ! a)) (list_imputation_mod demo_cpi_prefitted) \<and>
   isl (predict demo_env demo_cpi_prefitted demo_X demo_y demo_heap0) \<and>
   isl (score demo_env demo_cpi_prefitted demo_X demo_y demo_heap0) \<and>
   CPI_init demo_env demo_est (Single 0) 2 None demo_loss False (Some 0) 1 7 = Inr demo_cpi0 \<and>
   predict demo_env demo_cpi0 demo_X demo_y demo_heap0
     = Inl (ValueError ''fit must be called before predict'') \<and>
   score demo_env demo_cpi0 demo_X demo_y demo_heap0
     = Inl (ValueError ''fit must be called before score'')"
proof -
  have a: "\<not> e_fitted (demo_est\<lparr>e_fitted := False\<rparr>)" by simp
  have b: "\<not> list_all (\<lambda>a. m_fitted demo_env (demo_heap0 ! a))
             (list_imputation_mod demo_cpi_prefitted)"
    by (simp add: demo_defs demo_defs2)
  note t1 = unfitted_raises [of "demo_est\<lparr>e_fitted := False\<rparr>" demo_env "Single 0" 2 None
      demo_loss False "Some 0" 1 7 demo_cpi_prefitted demo_heap0 demo_X demo_y 0 demo_cpi0]
  note t2 = unfitted_raises [of demo_est demo_env "Single 0" 2 None
      demo_loss False "Some 0" 1 7 demo_cpi_prefitted demo_heap0 demo_X demo_y 0 demo_cpi0]
  from t1 t2 a b demo_init show ?thesis by blast
qed

text \<open>
  Claim C5 as the specification states it fails for \<open>predict\<close>: an instance built from a
  list of imputation models that are fitted already passes both checks, and \<open>predict\<close>
  returns although \<open>fit\<close> has never been called on the instance.
\<close>

theorem predict_without_fit_counterexample:
  "CPI_init demo_env demo_est (ModelList [0]) 2 (Some [(IntKey 0, [0])]) demo_loss False (Some 0) 1 7
     = Inr demo_cpi_prefitted \<and>
   nb_groups demo_cpi_prefitted = None \<and>
   predict demo_env demo_cpi_prefitted demo_X demo_y demo_heap_prefitted
     = Inr ([[[12, 24, 41], [14, 21, 42]]], demo_cpi_prefitted\<lparr>rng := 2\<rparr>)"
proof -
  have "predict demo_env demo_cpi_prefitted demo_X demo_y demo_heap_prefitted
     = Inr ([[[12, 24, 41], [14, 21, 42]]], demo_cpi_prefitted\<lparr>rng := 2\<rparr>)"
    by (simp add: predict_def joblib_predict_one_gp_def eval_defs demo_defs demo_defs2)
  moreover have "nb_groups demo_cpi_prefitted = None" by (simp add: demo_defs demo_defs2)
  ultimately show ?thesis using demo_init_prefitted by blast
qed




subsection \<open>The result of fit\<close>

lemma CPI_init_Inr:
  assumes "CPI_init env est imp nperm grps lss proba seed njobs fresh = Inr c"
  shows "estimator c = est" "imputation_model c = imp"
    "list_imputation_mod c = (case imp of ModelList ms \<Rightarrow> ms | Single a \<Rightarrow> [])"
    "n_perm c = nperm" "groups c = grps" "loss c = lss" "score_proba c = proba"
    "nb_groups c = None" "RandomState env seed fresh = Inr (rng c)" "e_fitted est"
  using assms by (auto simp: CPI_init_def split: if_splits sum.splits)

lemma fit_Inr:
  assumes "fit env c X y h = Inr (c', h')"
  obtains nb g ests h1 where
    "(case groups c of None \<Rightarrow> (ncols X, singleton_groups (ncols X))
      | Some g \<Rightarrow> (length g, g)) = (nb, g)"
    "(if list_imputation_mod c = []
      then clone_models env (imputation_model c) nb h
      else (map Some (list_imputation_mod c), h)) = (ests, h1)"
    "fit_all env (c\<lparr>nb_groups := Some nb, groups := Some g\<rparr>) X y ests 0 h1
     = Inr (list_imputation_mod c', h')"
    "c' = c\<lparr>nb_groups := Some nb, groups := Some g,
             list_imputation_mod := list_imputation_mod c'\<rparr>"
proof -
  obtain nb g where ng: "(case groups c of None \<Rightarrow> (ncols X, singleton_groups (ncols X))
      | Some g \<Rightarrow> (length g, g)) = (nb, g)"
    by (cases "case groups c of None \<Rightarrow> (ncols X, singleton_groups (ncols X))
      | Some g \<Rightarrow> (length g, g)")
  obtain ests h1 where eh: "(if list_imputation_mod c = []
      then clone_models env (imputation_model c) nb h
      else (map Some (list_imputation_mod c), h)) = (ests, h1)"
    by (cases "if list_imputation_mod c = []
      then clone_models env (imputation_model c) nb h
      else (map Some (list_imputation_mod c), h)")
  from assms ng eh obtain fitted where
    fa: "fit_all env (c\<lparr>nb_groups := Some nb, groups := Some g\<rparr>) X y ests 0 h1 = Inr (fitted, h')"
    and c': "c' = c\<lparr>nb_groups := Some nb, groups := Some g, list_imputation_mod := fitted\<rparr>"
    unfolding fit_def Let_def by (cases "list_imputation_mod c = []") (auto split: sum.splits)
  have "list_imputation_mod c' = fitted" by (simp add: c')
  with fa c' ng eh that show thesis by simp
qed

lemma group_split_groups:
  "groups c2 = groups c1 \<Longrightarrow> group_split c2 X j = group_split c1 X j"
  by (simp add: group_split_def)

lemma singleton_groups_length: "length (singleton_groups n) = n"
  by (simp add: singleton_groups_def)

lemma singleton_groups_distinct: "distinct (map fst (singleton_groups n))"
  by (simp add: singleton_groups_def distinct_map comp_def inj_on_def)

lemma singleton_groups_get:
  "j < n \<Longrightarrow> dict_get (singleton_groups n) (IntKey (int j)) = Inr [int j]"
proof -
  assume "j < n"
  then have "(IntKey (int j), [int j]) \<in> set (singleton_groups n)"
    by (auto simp: singleton_groups_def)
  then have "map_of (singleton_groups n) (IntKey (int j)) = Some [int j]"
    using singleton_groups_distinct by (simp add: map_of_eq_Some_iff)
  then show ?thesis by (simp add: dict_get_def)
qed

lemma singleton_groups_mem:
  "(k, ids) \<in> set (singleton_groups n) \<Longrightarrow> \<exists>j < n. k = IntKey (int j) \<and> ids = [int j]"
  by (auto simp: singleton_groups_def)

text \<open>
  Claim C9. When the constructor is given \<open>groups=None\<close>, \<open>fit\<close> gives every feature its
  own group: there are as many groups as \<open>X\<close> has columns, group \<open>j\<close> is the list of the one
  index \<open>j\<close>, and there is no other group.
\<close>

theorem fit_default_groups:
  assumes init: "CPI_init env est imp nperm None lss proba seed njobs fresh = Inr c"
    and fit: "fit env c X y h = Inr (c', h')"
  shows "nb_groups c' = Some (ncols X) \<and>
         (\<exists>g. groups c' = Some g \<and> length g = ncols X \<and>
            (\<forall>j < ncols X. dict_get g (IntKey (int j)) = Inr [int j]) \<and>
            (\<forall>k ids. (k, ids) \<in> set g \<longrightarrow> (\<exists>j < ncols X. k = IntKey (int j) \<and> ids = [int j])))"
proof -
  have gc: "groups c = None" by (rule CPI_init_Inr(5) [OF init])
  from fit obtain nb g where
    ng: "(case groups c of None \<Rightarrow> (ncols X, singleton_groups (ncols X))
                | Some g \<Rightarrow> (length g, g)) = (nb, g)"
    and c': "c' = c\<lparr>nb_groups := Some nb, groups := Some g,
             list_imputation_mod := list_imputation_mod c'\<rparr>"
    by (rule fit_Inr)
  from ng gc have nb: "nb = ncols X" and g: "g = singleton_groups (ncols X)" by auto
  have 1: "nb_groups c' = Some (ncols X)" by (subst c') (simp add: nb)
  have 2: "groups c' = Some (singleton_groups (ncols X))" by (subst c') (simp add: g)
  show ?thesis
    using 1 2 singleton_groups_length singleton_groups_get singleton_groups_mem by blast
qed

theorem fit_default_groups_witness:
  "CPI_init demo_env demo_est (Single 0) 2 None demo_loss False (Some 0) 1 7 = Inr demo_cpi0 \<and>
   fit demo_env demo_cpi0 demo_X demo_y demo_heap0 = Inr (demo_cpi1, demo_heap1) \<and>
   nb_groups demo_cpi1 = Some (ncols demo_X) \<and>
   (\<exists>g. groups demo_cpi1 = Some g \<and> length g = ncols demo_X \<and>
      (\<forall>j < ncols demo_X. dict_get g (IntKey (int j)) = Inr [int j]) \<and>
      (\<forall>k ids. (k, ids) \<in> set g \<longrightarrow> (\<exists>j < ncols demo_X. k = IntKey (int j) \<and> ids = [int j])))"
  using fit_default_groups [OF demo_init demo_fit] demo_init demo_fit by blast


lemma fit_single:
  assumes init: "CPI_init env est (Single a) nperm grps lss proba seed njobs fresh = Inr c"
    and fit: "fit env c X y h = Inr (c', h')"
  shows "\<exists>nb. nb_groups c' = Some nb \<and>
           list_imputation_mod c' = [length h ..< length h + nb] \<and>
           length h' = length h + nb \<and> take (length h) h' = h \<and>
           (\<forall>j < nb. \<exists>X_j X_minus_j. group_split c' X j = Inr (X_j, X_minus_j) \<and>
              h' ! (length h + j) = m_fit env (m_clone env (h ! a)) X_minus_j X_j)"
proof -
  have l: "list_imputation_mod c = []" and im: "imputation_model c = Single a"
    using CPI_init_Inr(2,3) [OF init] by simp_all
  from fit obtain nb g ests h1 where
    eh: "(if list_imputation_mod c = []
          then clone_models env (imputation_model c) nb h
          else (map Some (list_imputation_mod c), h)) = (ests, h1)"
    and fa: "fit_all env (c\<lparr>nb_groups := Some nb, groups := Some g\<rparr>) X y ests 0 h1
             = Inr (list_imputation_mod c', h')"
    and c': "c' = c\<lparr>nb_groups := Some nb, groups := Some g,
                    list_imputation_mod := list_imputation_mod c'\<rparr>"
    by (rule fit_Inr)
  let ?c1 = "c\<lparr>nb_groups := Some nb, groups := Some g\<rparr>"
  let ?as = "[length h ..< length h + nb]"
  from eh l im have ests: "ests = map Some ?as"
    and h1: "h1 = h @ replicate nb (m_clone env (h ! a))"
    by (simp_all add: clone_models_def)
  note fr = fit_all_frame [OF fa]
  from fr ests have as: "list_imputation_mod c' = ?as" by (simp add: inj_map_eq_map)
  have len: "length h' = length h + nb" using fr by (simp add: h1)
  have old: "take (length h) h' = h"
  proof (rule nth_equalityI)
    show "length (take (length h) h') = length h" using len by simp
  next
    fix b assume "b < length (take (length h) h')"
    then have b: "b < length h" by simp
    then have "b \<notin> set (list_imputation_mod c')" by (simp add: as)
    with fr have "h' ! b = h1 ! b" by blast
    with b show "take (length h) h' ! b = h ! b" by (simp add: h1 nth_append)
  qed
  have fa': "fit_all env ?c1 X y (map Some ?as) 0 h1 = Inr (list_imputation_mod c', h')"
    using fa ests by simp
  have v: "\<forall>i < length ?as. \<exists>X_j Xm. group_split ?c1 X (0 + i) = Inr (X_j, Xm) \<and>
           h' ! (?as ! i) = m_fit env (h1 ! (?as ! i)) Xm X_j"
    by (rule fit_all_values [OF fa']) (simp_all add: h1)
  have gs: "group_split c' X j = group_split ?c1 X j" for j
    by (rule group_split_groups) (subst c', simp)
  have each: "\<exists>X_j X_minus_j. group_split c' X j = Inr (X_j, X_minus_j) \<and>
              h' ! (length h + j) = m_fit env (m_clone env (h ! a)) X_minus_j X_j"
    if j: "j < nb" for j
  proof -
    from v j obtain X_j Xm where "group_split ?c1 X j = Inr (X_j, Xm)"
      "h' ! (?as ! j) = m_fit env (h1 ! (?as ! j)) Xm X_j" by force
    moreover have "h1 ! (?as ! j) = m_clone env (h ! a)" using j by (simp add: h1 nth_append)
    ultimately show ?thesis using j by (auto simp: gs)
  qed
  have "nb_groups c' = Some nb" by (subst c') simp
  with as len old each show ?thesis by blast
qed

lemma fit_list:
  assumes init: "CPI_init env est (ModelList ms) nperm grps lss proba seed njobs fresh = Inr c"
    and fit: "fit env c X y h = Inr (c', h')"
  shows "list_imputation_mod c' = ms" "length h' = length h" "\<forall>b. b \<notin> set ms \<longrightarrow> h' ! b = h ! b"
    and "\<exists>nb g. fit_all env (c\<lparr>nb_groups := Some nb, groups := Some g\<rparr>) X y (map Some ms) 0 h
                 = Inr (ms, h') \<and> groups c' = Some g \<and> nb_groups c' = Some nb \<and>
                 (case grps of None \<Rightarrow> (ncols X, singleton_groups (ncols X))
                  | Some g \<Rightarrow> (length g, g)) = (nb, g)"
proof -
  have l: "list_imputation_mod c = ms" and im: "imputation_model c = ModelList ms"
    and gr: "groups c = grps"
    using CPI_init_Inr(2,3,5) [OF init] by simp_all
  from fit obtain nb g ests h1 where
    ng: "(case groups c of None \<Rightarrow> (ncols X, singleton_groups (ncols X))
          | Some g \<Rightarrow> (length g, g)) = (nb, g)"
    and eh: "(if list_imputation_mod c = []
          then clone_models env (imputation_model c) nb h
          else (map Some (list_imputation_mod c), h)) = (ests, h1)"
    and fa: "fit_all env (c\<lparr>nb_groups := Some nb, groups := Some g\<rparr>) X y ests 0 h1
             = Inr (list_imputation_mod c', h')"
    and c': "c' = c\<lparr>nb_groups := Some nb, groups := Some g,
                    list_imputation_mod := list_imputation_mod c'\<rparr>"
    by (rule fit_Inr)
  note fr = fit_all_frame [OF fa]
  have h1: "h1 = h" using eh l im by (cases "ms = []") (simp_all add: clone_models_def)
  have as: "list_imputation_mod c' = ms \<and> ests = map Some ms"
  proof (cases "ms = []")
    case True
    then have "ests = replicate nb None" using eh l im by (simp add: clone_models_def)
    with fr have "replicate nb None = map Some (list_imputation_mod c')" by simp
    then have "list_imputation_mod c' = []" by (cases "list_imputation_mod c'"; cases nb) simp_all
    with True fr show ?thesis by simp
  next
    case False
    then have "ests = map Some ms" using eh l by simp
    with fr show ?thesis by (simp add: inj_map_eq_map)
  qed
  show "list_imputation_mod c' = ms" using as by simp
  show "length h' = length h" using fr h1 by simp
  show "\<forall>b. b \<notin> set ms \<longrightarrow> h' ! b = h ! b" using fr as h1 by simp
  have "groups c' = Some g" "nb_groups c' = Some nb" by (subst c', simp)+
  with fa as h1 ng gr
  show "\<exists>nb g. fit_all env (c\<lparr>nb_groups := Some nb, groups := Some g\<rparr>) X y (map Some ms) 0 h
                 = Inr (ms, h') \<and> groups c' = Some g \<and> nb_groups c' = Some nb \<and>
                 (case grps of None \<Rightarrow> (ncols X, singleton_groups (ncols X))
                  | Some g \<Rightarrow> (length g, g)) = (nb, g)"
    by auto
qed





lemma group_split_Inr:
  assumes sp: "group_split c X j = Inr (X_j, Xm)" and g: "groups c = Some g"
  shows "\<exists>ids gks. dict_get g (IntKey (int j)) = Inr ids \<and> norm_ids (ncols X) ids = Inr gks \<and>
           take_cols X ids = Inr X_j \<and> np_delete X ids = Inr Xm \<and>
           rows X_j = map (\<lambda>r. map (\<lambda>k. r ! k) gks) (rows X) \<and>
           rows Xm = map (\<lambda>r. map (\<lambda>k. r ! k) (filter (\<lambda>k. k \<notin> set gks) [0..<ncols X])) (rows X)"
proof -
  from sp g obtain ids where d: "dict_get g (IntKey (int j)) = Inr ids"
    and t: "take_cols X ids = Inr X_j" and n: "np_delete X ids = Inr Xm"
    unfolding group_split_def by (auto split: sum.splits)
  from t obtain gks where k: "norm_ids (ncols X) ids = Inr gks"
    and Xj: "X_j = \<lparr>ncols = length gks, rows = map (\<lambda>r. map (\<lambda>k. r ! k) gks) (rows X)\<rparr>"
    unfolding take_cols_def by (auto split: sum.splits)
  from n k have "Xm = \<lparr>ncols = length (filter (\<lambda>k. k \<notin> set gks) [0..<ncols X]),
      rows = map (\<lambda>r. map (\<lambda>k. r ! k) (filter (\<lambda>k. k \<notin> set gks) [0..<ncols X])) (rows X)\<rparr>"
    unfolding np_delete_def delete_arange_def by simp
  with d k t n Xj show ?thesis by simp
qed


lemma fit_groups:
  assumes "fit env c X y h = Inr (c', h')"
  shows "\<exists>nb g. nb_groups c' = Some nb \<and> groups c' = Some g \<and> length g = nb \<and>
           (case groups c of None \<Rightarrow> (ncols X, singleton_groups (ncols X))
            | Some g \<Rightarrow> (length g, g)) = (nb, g) \<and>
           c' = c\<lparr>nb_groups := Some nb, groups := Some g,
                  list_imputation_mod := list_imputation_mod c'\<rparr>"
proof -
  from assms obtain nb g where
    ng: "(case groups c of None \<Rightarrow> (ncols X, singleton_groups (ncols X))
          | Some g \<Rightarrow> (length g, g)) = (nb, g)"
    and c': "c' = c\<lparr>nb_groups := Some nb, groups := Some g,
                    list_imputation_mod := list_imputation_mod c'\<rparr>"
    by (rule fit_Inr)
  have "length g = nb" using ng by (auto simp: singleton_groups_length split: option.splits)
  moreover have "nb_groups c' = Some nb" "groups c' = Some g" by (subst c', simp)+
  ultimately show ?thesis using ng c' by blast
qed




subsection \<open>Two instances\<close>

lemma fit_all_related:
  assumes fa: "fit_all env ca X y (map Some as1) j0 h1 = Inr (r1, h1')"
    and d1: "distinct as1" and v1: "\<forall>a \<in> set as1. a < length h1"
    and d2: "distinct as2" and v2: "\<forall>a \<in> set as2. a < length h2"
    and eq: "map (\<lambda>a. h1 ! a) as1 = map (\<lambda>a. h2 ! a) as2"
    and g: "groups cb = groups ca"
  shows "\<exists>h2'. fit_all env cb X y (map Some as2) j0 h2 = Inr (as2, h2') \<and>
               map (\<lambda>a. h2' ! a) as2 = map (\<lambda>a. h1' ! a) as1"
proof -
  have len: "length as2 = length as1" using eq by (metis length_map)
  have gs: "group_split cb X j = group_split ca X j" for j
    by (rule group_split_groups [OF g])
  have ok: "\<forall>i < length as2. \<exists>X_j Xm. group_split cb X (j0 + i) = Inr (X_j, Xm)"
    using fit_all_split_ok [OF fa] len by (simp add: gs)
  from fit_all_succeeds [OF ok] obtain h2' where
    fb: "fit_all env cb X y (map Some as2) j0 h2 = Inr (as2, h2')" by blast
  note va = fit_all_values [OF fa d1 v1]
  note vb = fit_all_values [OF fb d2 v2]
  have "map (\<lambda>a. h2' ! a) as2 = map (\<lambda>a. h1' ! a) as1"
  proof (rule nth_equalityI)
    show "length (map (\<lambda>a. h2' ! a) as2) = length (map (\<lambda>a. h1' ! a) as1)" using len by simp
  next
    fix i assume "i < length (map (\<lambda>a. h2' ! a) as2)"
    then have i2: "i < length as2" and i1: "i < length as1" using len by simp_all
    from va i1 obtain X_j Xm where a: "group_split ca X (j0 + i) = Inr (X_j, Xm)"
      "h1' ! (as1 ! i) = m_fit env (h1 ! (as1 ! i)) Xm X_j" by blast
    from vb i2 obtain X_j' Xm' where b: "group_split cb X (j0 + i) = Inr (X_j', Xm')"
      "h2' ! (as2 ! i) = m_fit env (h2 ! (as2 ! i)) Xm' X_j'" by blast
    from a(1) b(1) have e: "X_j' = X_j" "Xm' = Xm" by (simp_all add: gs)
    have "map (\<lambda>a. h1 ! a) as1 ! i = map (\<lambda>a. h2 ! a) as2 ! i" using eq by simp
    then have "h1 ! (as1 ! i) = h2 ! (as2 ! i)" using i1 i2 by simp
    with a(2) b(2) e show "map (\<lambda>a. h2' ! a) as2 ! i = map (\<lambda>a. h1' ! a) as1 ! i"
      using i1 i2 by simp
  qed
  with fb show ?thesis by blast
qed

lemma joblib_predict_one_gp_fields:
  assumes "estimator c2 = estimator c1" "score_proba c2 = score_proba c1"
    and "n_perm c2 = n_perm c1" "groups c2 = groups c1"
  shows "joblib_predict_one_gp env c2 m X j s = joblib_predict_one_gp env c1 m X j s"
proof -
  have "estimator_predict c2 = estimator_predict c1"
    using assms(1,2) by (simp add: estimator_predict_def fun_eq_iff)
  then have "perm_loop env c2 X Xm Xh res gids keep n s = perm_loop env c1 X Xm Xh res gids keep n s"
    for Xm Xh res gids keep n
    by (simp add: perm_loop_designs with_predictions_def split: sum.splits)
  then show ?thesis
    using assms(3,4)
    by (simp add: joblib_predict_one_gp_def split: option.splits sum.splits)
qed

lemma predict_all_fields:
  assumes "estimator c2 = estimator c1" "score_proba c2 = score_proba c1"
    and "n_perm c2 = n_perm c1" "groups c2 = groups c1"
  shows "predict_all env c2 X ms j s = predict_all env c1 X ms j s"
  by (induction ms arbitrary: j s)
     (simp_all add: joblib_predict_one_gp_fields [OF assms] split: sum.splits)

lemma predict_models:
  assumes f: "estimator c2 = estimator c1" "score_proba c2 = score_proba c1"
             "n_perm c2 = n_perm c1" "groups c2 = groups c1"
    and r: "rng c2 = rng c1"
    and m: "map (\<lambda>a. h2 ! a) (list_imputation_mod c2) = map (\<lambda>a. h1 ! a) (list_imputation_mod c1)"
    and p: "predict env c1 X y h1 = Inr (out, c1')"
  shows "predict env c2 X y h2 = Inr (out, c2\<lparr>rng := rng c1'\<rparr>)"
proof -
  from p have ne: "list_imputation_mod c1 \<noteq> []"
    and fi: "list_all (\<lambda>a. m_fitted env (h1 ! a)) (list_imputation_mod c1)"
    by (auto simp: predict_def split: if_splits)
  from p ne fi obtain s' where
    pa: "predict_all env c1 X (map (\<lambda>a. h1 ! a) (list_imputation_mod c1)) 0 (rng c1) = Inr (out, s')"
    and c1': "c1' = c1\<lparr>rng := s'\<rparr>"
    by (auto simp: predict_def split: sum.splits)
  have ne2: "list_imputation_mod c2 \<noteq> []" using m ne by auto
  have "list_all (m_fitted env) (map (\<lambda>a. h1 ! a) (list_imputation_mod c1))"
    using fi by (simp add: list_all_iff)
  then have "list_all (m_fitted env) (map (\<lambda>a. h2 ! a) (list_imputation_mod c2))"
    by (simp only: m)
  then have fi2: "list_all (\<lambda>a. m_fitted env (h2 ! a)) (list_imputation_mod c2)"
    by (simp add: list_all_iff)
  have "predict_all env c2 X (map (\<lambda>a. h2 ! a) (list_imputation_mod c2)) 0 (rng c2) = Inr (out, s')"
    using pa by (simp only: predict_all_fields [OF f] m r)
  then show ?thesis using ne2 fi2 by (simp add: predict_def c1')
qed

lemma score_models:
  assumes f: "estimator c2 = estimator c1" "score_proba c2 = score_proba c1"
             "n_perm c2 = n_perm c1" "groups c2 = groups c1"
    and r: "rng c2 = rng c1" and l: "loss c2 = loss c1" and nb: "nb_groups c2 = nb_groups c1"
    and m: "map (\<lambda>a. h2 ! a) (list_imputation_mod c2) = map (\<lambda>a. h1 ! a) (list_imputation_mod c1)"
    and s: "score env c1 X y h1 = Inr (out, c1')"
  shows "score env c2 X y h2 = Inr (out, c2\<lparr>rng := rng c1'\<rparr>)"
proof -
  from s have e: "e_fitted (estimator c1)" and ne: "list_imputation_mod c1 \<noteq> []"
    and fi: "list_all (\<lambda>a. m_fitted env (h1 ! a)) (list_imputation_mod c1)"
    by (auto simp: score_def split: if_splits)
  from s e ne fi obtain preds where p: "predict env c1 X y h1 = Inr (preds, c1')"
    by (auto simp: score_def Let_def split: sum.splits option.splits)
  have p2: "predict env c2 X y h2 = Inr (preds, c2\<lparr>rng := rng c1'\<rparr>)"
    by (rule predict_models [OF f r m p])
  have ne2: "list_imputation_mod c2 \<noteq> []" using m ne by auto
  have fi2: "list_all (\<lambda>a. m_fitted env (h2 ! a)) (list_imputation_mod c2)"
    using p2 by (auto simp: predict_def split: if_splits)
  have ep: "estimator_predict c2 = estimator_predict c1"
    using f(1,2) by (simp add: estimator_predict_def fun_eq_iff)
  have nb1: "nb_groups c1' = nb_groups c1" using predict_Inr(4) [OF p] by simp
  from s e ne fi p nb1 show ?thesis
    unfolding score_def Let_def
    by (simp add: p2 ne2 fi2 ep l f(1) nb split: option.splits sum.splits)
qed


lemma fit_from_parts:
  assumes ng: "(case groups c of None \<Rightarrow> (ncols X, singleton_groups (ncols X))
                | Some g \<Rightarrow> (length g, g)) = (nb, g)"
    and eh: "(if list_imputation_mod c = []
              then clone_models env (imputation_model c) nb h
              else (map Some (list_imputation_mod c), h)) = (ests, h1)"
    and fa: "fit_all env (c\<lparr>nb_groups := Some nb, groups := Some g\<rparr>) X y ests 0 h1 = Inr (l, h')"
  shows "fit env c X y h
         = Inr (c\<lparr>nb_groups := Some nb, groups := Some g, list_imputation_mod := l\<rparr>, h')"
  using assms unfolding fit_def Let_def
  by (cases "list_imputation_mod c = []") simp_all

lemma clones_values:
  "map (\<lambda>a. (h @ replicate nb v) ! a) [length h ..< length h + nb] = replicate nb v"
  by (rule nth_equalityI) (simp_all add: nth_append)

lemma RandomState_seed: "RandomState env (Some k) fresh = Inr s \<Longrightarrow> s = rs_seed env k"
  by (auto simp: RandomState_def split: if_splits)

text \<open>
  Claim C10. Two new instances are built with the same arguments, among them an integer
  \<open>random_state\<close> and \<open>n_jobs = 1\<close>, possibly at different times (\<open>fresh1\<close>, \<open>fresh2\<close>) and
  from different but equal imputation-model objects (\<open>same_models\<close>). If the first is
  fitted on \<open>X\<close> and \<open>y\<close> and \<open>score\<close> returns for it, then the second can be fitted too and
  \<open>score\<close> returns the same dictionary for it. The generator of each instance is the one
  seeded from \<open>random_state\<close> in the constructor. (The estimator, the imputation models and
  the loss are deterministic: they are functions.)
\<close>

theorem score_deterministic:
  assumes i1: "CPI_init env est imp1 nperm grps lss proba (Some k) 1 fresh1 = Inr c1"
    and i2: "CPI_init env est imp2 nperm grps lss proba (Some k) 1 fresh2 = Inr c2"
    and same: "same_models h1 imp1 h2 imp2"
    and f1: "fit env c1 X y h1 = Inr (c1', h1')"
    and s1: "score env c1' X y h1' = Inr (out, c1'')"
  shows "rng c1 = rs_seed env k \<and> rng c2 = rs_seed env k \<and>
         (\<exists>c2' h2' c2''. fit env c2 X y h2 = Inr (c2', h2') \<and>
                         score env c2' X y h2' = Inr (out, c2''))"
proof -
  note I1 = CPI_init_Inr [OF i1] and I2 = CPI_init_Inr [OF i2]
  have r1: "rng c1 = rs_seed env k" by (rule RandomState_seed [OF I1(9)])
  have r2: "rng c2 = rs_seed env k" by (rule RandomState_seed [OF I2(9)])
  from f1 obtain nb g ests1 h11 where
    ng: "(case groups c1 of None \<Rightarrow> (ncols X, singleton_groups (ncols X))
          | Some g \<Rightarrow> (length g, g)) = (nb, g)"
    and eh1: "(if list_imputation_mod c1 = []
          then clone_models env (imputation_model c1) nb h1
          else (map Some (list_imputation_mod c1), h1)) = (ests1, h11)"
    and fa1: "fit_all env (c1\<lparr>nb_groups := Some nb, groups := Some g\<rparr>) X y ests1 0 h11
             = Inr (list_imputation_mod c1', h1')"
    and c1': "c1' = c1\<lparr>nb_groups := Some nb, groups := Some g,
                    list_imputation_mod := list_imputation_mod c1'\<rparr>"
    by (rule fit_Inr)
  let ?c11 = "c1\<lparr>nb_groups := Some nb, groups := Some g\<rparr>"
  let ?c21 = "c2\<lparr>nb_groups := Some nb, groups := Some g\<rparr>"
  have ng2: "(case groups c2 of None \<Rightarrow> (ncols X, singleton_groups (ncols X))
          | Some g \<Rightarrow> (length g, g)) = (nb, g)"
    using ng I1(5) I2(5) by simp
  have gg: "groups ?c21 = groups ?c11" by simp
  have ne1: "list_imputation_mod c1' \<noteq> []" using s1 by (auto simp: score_def split: if_splits)
  have "\<exists>as2 h21 h2'.
          (if list_imputation_mod c2 = []
           then clone_models env (imputation_model c2) nb h2
           else (map Some (list_imputation_mod c2), h2)) = (map Some as2, h21) \<and>
          fit_all env ?c21 X y (map Some as2) 0 h21 = Inr (as2, h2') \<and>
          map (\<lambda>a. h2' ! a) as2 = map (\<lambda>a. h1' ! a) (list_imputation_mod c1')"
  proof (cases imp1)
    case (Single a1)
    with same obtain a2 where imp2: "imp2 = Single a2" and v: "h1 ! a1 = h2 ! a2"
      by (auto simp: same_models_def split: imputation_arg.splits)
    let ?as1 = "[length h1 ..< length h1 + nb]"
    let ?as2 = "[length h2 ..< length h2 + nb]"
    let ?h11 = "h1 @ replicate nb (m_clone env (h1 ! a1))"
    let ?h21 = "h2 @ replicate nb (m_clone env (h2 ! a2))"
    have e1: "ests1 = map Some ?as1" "h11 = ?h11"
      using eh1 I1(2,3) Single by (simp_all add: clone_models_def)
    have e2: "(if list_imputation_mod c2 = []
           then clone_models env (imputation_model c2) nb h2
           else (map Some (list_imputation_mod c2), h2)) = (map Some ?as2, ?h21)"
      using I2(2,3) imp2 by (simp add: clone_models_def)
    have fa: "fit_all env ?c11 X y (map Some ?as1) 0 ?h11 = Inr (list_imputation_mod c1', h1')"
      using fa1 e1 by simp
    have l1: "list_imputation_mod c1' = ?as1"
      using fit_all_frame [OF fa] by (simp add: inj_map_eq_map)
    have eq: "map (\<lambda>a. ?h11 ! a) ?as1 = map (\<lambda>a. ?h21 ! a) ?as2"
      by (simp only: clones_values v)
    from fit_all_related [OF fa _ _ _ _ eq gg] obtain h2' where
      "fit_all env ?c21 X y (map Some ?as2) 0 ?h21 = Inr (?as2, h2')"
      "map (\<lambda>a. h2' ! a) ?as2 = map (\<lambda>a. h1' ! a) ?as1"
      by auto
    with e2 l1 show ?thesis by metis
  next
    case (ModelList ms1)
    with same obtain ms2 where imp2: "imp2 = ModelList ms2"
      and d: "distinct ms1" "distinct ms2"
      and va: "\<forall>a \<in> set ms1. a < length h1" "\<forall>a \<in> set ms2. a < length h2"
      and eq: "map (\<lambda>a. h1 ! a) ms1 = map (\<lambda>a. h2 ! a) ms2"
      by (auto simp: same_models_def valid_addrs_def list_all_iff split: imputation_arg.splits)
    from i1 ModelList have i1': "CPI_init env est (ModelList ms1) nperm grps lss proba (Some k) 1 fresh1 = Inr c1"
      by simp
    have l1: "list_imputation_mod c1' = ms1" by (rule fit_list(1) [OF i1' f1])
    then have n1: "ms1 \<noteq> []" using ne1 by simp
    then have n2: "ms2 \<noteq> []" using eq by auto
    have e1: "ests1 = map Some ms1" "h11 = h1"
      using eh1 I1(3) ModelList n1 by simp_all
    have e2: "(if list_imputation_mod c2 = []
           then clone_models env (imputation_model c2) nb h2
           else (map Some (list_imputation_mod c2), h2)) = (map Some ms2, h2)"
      using I2(3) imp2 n2 by simp
    have fa: "fit_all env ?c11 X y (map Some ms1) 0 h1 = Inr (list_imputation_mod c1', h1')"
      using fa1 e1 by simp
    from fit_all_related [OF fa d(1) va(1) d(2) va(2) eq gg] obtain h2' where
      "fit_all env ?c21 X y (map Some ms2) 0 h2 = Inr (ms2, h2')"
      "map (\<lambda>a. h2' ! a) ms2 = map (\<lambda>a. h1' ! a) ms1"
      by auto
    with e2 l1 show ?thesis by metis
  qed
  then obtain as2 h21 h2' where
    eh2: "(if list_imputation_mod c2 = []
           then clone_models env (imputation_model c2) nb h2
           else (map Some (list_imputation_mod c2), h2)) = (map Some as2, h21)"
    and fa2: "fit_all env ?c21 X y (map Some as2) 0 h21 = Inr (as2, h2')"
    and m: "map (\<lambda>a. h2' ! a) as2 = map (\<lambda>a. h1' ! a) (list_imputation_mod c1')"
    by blast
  let ?c2' = "c2\<lparr>nb_groups := Some nb, groups := Some g, list_imputation_mod := as2\<rparr>"
  have f2: "fit env c2 X y h2 = Inr (?c2', h2')"
    by (rule fit_from_parts [OF ng2 eh2 fa2])
  have fields: "estimator ?c2' = estimator c1'" "score_proba ?c2' = score_proba c1'"
    "n_perm ?c2' = n_perm c1'" "groups ?c2' = groups c1'" "rng ?c2' = rng c1'"
    "loss ?c2' = loss c1'" "nb_groups ?c2' = nb_groups c1'"
    by (subst c1', simp add: I1 I2 r1 r2)+
  have m': "map (\<lambda>a. h2' ! a) (list_imputation_mod ?c2')
            = map (\<lambda>a. h1' ! a) (list_imputation_mod c1')" using m by simp
  have "score env ?c2' X y h2' = Inr (out, ?c2'\<lparr>rng := rng c1''\<rparr>)"
    by (rule score_models [OF fields m' s1])
  with f2 r1 r2 show ?thesis by blast
qed


lemma demo_init_second:
  "CPI_init demo_env demo_est (Single 1) 2 None demo_loss False (Some 0) 1 9
   = Inr (demo_cpi0\<lparr>imputation_model := Single 1\<rparr>)"
  by (simp add: CPI_init_def RandomState_def demo_defs)

theorem score_deterministic_witness:
  "CPI_init demo_env demo_est (Single 0) 2 None demo_loss False (Some 0) 1 7 = Inr demo_cpi0 \<and>
   CPI_init demo_env demo_est (Single 1) 2 None demo_loss False (Some 0) 1 9
     = Inr (demo_cpi0\<lparr>imputation_model := Single 1\<rparr>) \<and>
   same_models demo_heap0 (Single 0) [Fitted [5], Unfitted] (Single 1) \<and>
   fit demo_env demo_cpi0 demo_X demo_y demo_heap0 = Inr (demo_cpi1, demo_heap1) \<and>
   score demo_env demo_cpi1 demo_X demo_y demo_heap1 = Inr (demo_out_dict, demo_cpi1\<lparr>rng := 4\<rparr>) \<and>
   rng demo_cpi0 = rs_seed demo_env 0 \<and>
   rng (demo_cpi0\<lparr>imputation_model := Single 1\<rparr>) = rs_seed demo_env 0 \<and>
   (\<exists>c2' h2' c2''.
      fit demo_env (demo_cpi0\<lparr>imputation_model := Single 1\<rparr>) demo_X demo_y [Fitted [5], Unfitted]
        = Inr (c2', h2') \<and>
      score demo_env c2' demo_X demo_y h2' = Inr (demo_out_dict, c2''))"
proof -
  have same: "same_models demo_heap0 (Single 0) [Fitted [5], Unfitted] (Single 1)"
    by (simp add: same_models_def demo_defs)
  from score_deterministic [OF demo_init demo_init_second same demo_fit demo_score]
    demo_init demo_init_second same demo_fit demo_score
  show ?thesis by blast
qed

subsection \<open>score returns for a fitted instance\<close>

lemma X_perm_round_succeeds:
  assumes g: "norm_ids (ncols X) gids = Inr gks"
    and Xm: "Xm = \<lparr>ncols = length (filter (\<lambda>k. k \<notin> set gks) [0..<ncols X]),
                  rows = map (\<lambda>r. map (\<lambda>k. r ! k) (filter (\<lambda>k. k \<notin> set gks) [0..<ncols X])) (rows X)\<rparr>"
    and Xh: "ncols Xh = length gks" "nrows Xh = nrows X"
    and res: "nrows res = nrows X"
    and rs: "length (fst (rs_permutation env s (nrows X))) = nrows X"
  shows "\<exists>Xp s'. X_perm_round env X Xm Xh res gids
                    (filter (\<lambda>k. k \<notin> set gks) [0..<ncols X]) s = Inr (Xp, s')"
proof -
  let ?keep = "filter (\<lambda>k. k \<notin> set gks) [0..<ncols X]"
  obtain P s' where P: "permutation env s res = (P, s')" by (cases "permutation env s res")
  have nP: "nrows P = nrows X"
    using P rs res by (auto simp: permutation_def nrows_def split: prod.splits)
  have nk: "norm_ids (ncols (np_empty_like env X)) (map int ?keep) = Inr ?keep"
    by (simp add: np_empty_like_def norm_ids_nat)
  have a0: "assign_cols (np_empty_like env X) (map int ?keep) Xm
            = Inr ((np_empty_like env X)\<lparr>rows :=
                 map2 (\<lambda>r vs. assign_row r ?keep vs) (rows (np_empty_like env X)) (rows Xm)\<rparr>)"
    unfolding assign_cols_def nk by (simp add: Xm nrows_def np_empty_like_def)
  let ?X0 = "(np_empty_like env X)\<lparr>rows :=
                 map2 (\<lambda>r vs. assign_row r ?keep vs) (rows (np_empty_like env X)) (rows Xm)\<rparr>"
  have c0: "ncols ?X0 = ncols X" and n0: "nrows ?X0 = nrows X"
    by (simp_all add: np_empty_like_def nrows_def Xm)
  have sh: "nrows (array_add Xh P) = nrows ?X0" "ncols (array_add Xh P) = length gks"
    using Xh nP n0 by (simp_all add: array_add_def nrows_def)
  have "\<exists>Xp. assign_cols ?X0 gids (array_add Xh P) = Inr Xp"
    unfolding assign_cols_def c0 g using sh by simp
  then show ?thesis
    unfolding X_perm_round_def by (auto simp: P a0 Let_def)
qed

lemma X_perm_rounds_succeeds:
  assumes g: "norm_ids (ncols X) gids = Inr gks"
    and Xm: "Xm = \<lparr>ncols = length (filter (\<lambda>k. k \<notin> set gks) [0..<ncols X]),
                  rows = map (\<lambda>r. map (\<lambda>k. r ! k) (filter (\<lambda>k. k \<notin> set gks) [0..<ncols X])) (rows X)\<rparr>"
    and Xh: "ncols Xh = length gks" "nrows Xh = nrows X"
    and res: "nrows res = nrows X"
    and rs: "\<forall>s. length (fst (rs_permutation env s (nrows X))) = nrows X"
  shows "\<exists>Xs s'. X_perm_rounds env X Xm Xh res gids
                    (filter (\<lambda>k. k \<notin> set gks) [0..<ncols X]) n s = Inr (Xs, s')"
proof (induction n arbitrary: s)
  case 0
  then show ?case by simp
next
  case (Suc n)
  from rs have "length (fst (rs_permutation env s (nrows X))) = nrows X" by blast
  from X_perm_round_succeeds [OF g Xm Xh res this] obtain Xp s1 where
    "X_perm_round env X Xm Xh res gids (filter (\<lambda>k. k \<notin> set gks) [0..<ncols X]) s = Inr (Xp, s1)"
    by blast
  moreover from Suc [of s1] obtain Xs s' where
    "X_perm_rounds env X Xm Xh res gids (filter (\<lambda>k. k \<notin> set gks) [0..<ncols X]) n s1
     = Inr (Xs, s')" by blast
  ultimately show ?case by simp
qed

lemma joblib_predict_one_gp_succeeds:
  assumes sp: "group_split c X j = Inr (X_j, Xm)"
    and mp: "length (m_predict env m Xm) = nrows X_j * ncols X_j"
    and rs: "\<forall>s. length (fst (rs_permutation env s (nrows X))) = nrows X"
  shows "\<exists>ys s'. joblib_predict_one_gp env c m X j s = Inr (ys, s')"
proof -
  from sp obtain g where gc: "groups c = Some g"
    by (auto simp: group_split_def split: option.splits)
  from group_split_Inr [OF sp gc] obtain ids gks where f:
    "dict_get g (IntKey (int j)) = Inr ids" "norm_ids (ncols X) ids = Inr gks"
    "take_cols X ids = Inr X_j" "np_delete X ids = Inr Xm"
    "rows X_j = map (\<lambda>r. map (\<lambda>k. r ! k) gks) (rows X)"
    "rows Xm = map (\<lambda>r. map (\<lambda>k. r ! k) (filter (\<lambda>k. k \<notin> set gks) [0..<ncols X])) (rows X)"
    by blast
  have cj: "ncols X_j = length gks" and nj: "nrows X_j = nrows X"
    using f(2,3) by (auto simp: take_cols_def nrows_def)
  have Xm: "Xm = \<lparr>ncols = length (filter (\<lambda>k. k \<notin> set gks) [0..<ncols X]),
                  rows = map (\<lambda>r. map (\<lambda>k. r ! k) (filter (\<lambda>k. k \<notin> set gks) [0..<ncols X])) (rows X)\<rparr>"
    using f(2,4) by (auto simp: np_delete_def delete_arange_def)
  obtain Xh where Xh: "reshape (m_predict env m Xm) (nrows X_j) (ncols X_j) = Inr Xh"
    using mp by (simp add: reshape_def)
  note sh = reshape_Inr [OF Xh]
  have h1: "ncols Xh = length gks" "nrows Xh = nrows X" using sh cj nj by simp_all
  have r: "nrows (array_sub X_j Xh) = nrows X"
    using h1(2) nj by (simp add: array_sub_def nrows_def)
  have da: "delete_arange (ncols X) ids = Inr (filter (\<lambda>k. k \<notin> set gks) [0..<ncols X])"
    using f(2) by (simp add: delete_arange_def)
  from X_perm_rounds_succeeds [OF f(2) Xm h1 r rs] obtain Xs s' where
    "X_perm_rounds env X Xm Xh (array_sub X_j Xh) ids
       (filter (\<lambda>k. k \<notin> set gks) [0..<ncols X]) (nat (n_perm c)) s = Inr (Xs, s')" by blast
  then have "perm_designs env c m X j s = Inr (Xs, s')"
    by (simp add: perm_designs_def gc f(1,3,4) Xh da)
  then show ?thesis
    by (simp add: joblib_predict_one_gp_designs with_predictions_def)
qed

lemma predict_all_succeeds:
  assumes "\<forall>i < length ms. \<exists>X_j Xm. group_split c X (j0 + i) = Inr (X_j, Xm) \<and>
             length (m_predict env (ms ! i) Xm) = nrows X_j * ncols X_j"
    and rs: "\<forall>s. length (fst (rs_permutation env s (nrows X))) = nrows X"
  shows "\<exists>outs s'. predict_all env c X ms j0 s = Inr (outs, s')"
  using assms(1)
proof (induction ms arbitrary: j0 s)
  case Nil
  then show ?case by simp
next
  case (Cons m ms)
  from Cons.prems obtain X_j Xm where "group_split c X j0 = Inr (X_j, Xm)"
    "length (m_predict env m Xm) = nrows X_j * ncols X_j" by force
  from joblib_predict_one_gp_succeeds [OF this rs] obtain ys s1 where
    t: "joblib_predict_one_gp env c m X j0 s = Inr (ys, s1)" by blast
  have "\<forall>i < length ms. \<exists>X_j Xm. group_split c X (Suc j0 + i) = Inr (X_j, Xm) \<and>
             length (m_predict env (ms ! i) Xm) = nrows X_j * ncols X_j"
    using Cons.prems by force
  from Cons.IH [OF this] obtain outs s' where
    "predict_all env c X ms (Suc j0) s1 = Inr (outs, s')" by blast
  with t show ?case by simp
qed

lemma importance_list_succeeds:
  assumes "\<forall>j \<in> set js. j < length preds"
  shows "\<exists>imp. importance_list env
           (map (\<lambda>(j, p). (j, F p)) (enumerate 0 preds)) ref js = Inr imp"
  using assms
proof (induction js)
  case Nil
  then show ?case by simp
next
  case (Cons j js)
  then have j: "j < length preds" by simp
  have d: "distinct (map fst (map (\<lambda>(j, p). (j, F p)) (enumerate 0 preds)))"
    by (simp add: case_prod_unfold comp_def)
  have "(j, F (preds ! j)) \<in> set (map (\<lambda>(j, p). (j, F p)) (enumerate 0 preds))"
    using j by (force simp: in_set_enumerate_eq)
  then have "map_of (map (\<lambda>(j, p). (j, F p)) (enumerate 0 preds)) j = Some (F (preds ! j))"
    using d by (simp add: map_of_eq_Some_iff)
  then have "dict_get (map (\<lambda>(j, p). (j, F p)) (enumerate 0 preds)) j = Inr (F (preds ! j))"
    by (simp add: dict_get_def)
  moreover from Cons obtain imp where
    "importance_list env (map (\<lambda>(j, p). (j, F p)) (enumerate 0 preds)) ref js = Inr imp"
    by auto
  ultimately show ?case by simp
qed


text \<open>
  \<open>score\<close> does return for an instance that was built from a single imputation model and
  fitted, with at least one group, when the library keeps its contracts: \<open>fit\<close> leaves a
  model fitted, a model fitted to predict \<open>X_j\<close> from \<open>X_minus_j\<close> predicts an array of the
  size of \<open>X_j\<close>, and \<open>permutation\<close> returns as many indices as there are rows.
\<close>

lemma score_returns:
  assumes init: "CPI_init env est (Single a) nperm grps lss proba seed njobs fresh = Inr c"
    and fit: "fit env c X y h = Inr (c', h')"
    and some: "nb_groups c' \<noteq> Some 0"
    and fitted: "\<forall>m A B. m_fitted env (m_fit env m A B)"
    and size: "\<forall>j X_j Xm m. group_split c' X j = Inr (X_j, Xm) \<longrightarrow>
                 length (m_predict env (m_fit env m Xm X_j) Xm) = nrows X_j * ncols X_j"
    and rs: "\<forall>s n. length (fst (rs_permutation env s n)) = n"
  shows "\<exists>out c''. score env c' X y h' = Inr (out, c'')"
proof -
  from fit_single [OF init fit] obtain nb where
    nb: "nb_groups c' = Some nb"
    and l: "list_imputation_mod c' = [length h ..< length h + nb]"
    and v: "\<forall>j < nb. \<exists>X_j X_minus_j. group_split c' X j = Inr (X_j, X_minus_j) \<and>
              h' ! (length h + j) = m_fit env (m_clone env (h ! a)) X_minus_j X_j"
    by blast
  have pos: "0 < nb" using some nb by simp
  have ne: "list_imputation_mod c' \<noteq> []" using pos by (simp add: l)
  have ef: "e_fitted (estimator c')"
  proof -
    from fit_groups [OF fit] obtain nb' g where
      e: "c' = c\<lparr>nb_groups := Some nb', groups := Some g,
              list_imputation_mod := list_imputation_mod c'\<rparr>" by blast
    have "estimator c' = estimator c" by (subst e) simp
    then show ?thesis using CPI_init_Inr(1,10) [OF init] by simp
  qed
  let ?ms = "map (\<lambda>a. h' ! a) (list_imputation_mod c')"
  have nth: "?ms ! j = h' ! (length h + j)" if "j < nb" for j using that by (simp add: l)
  have fi: "list_all (\<lambda>a. m_fitted env (h' ! a)) (list_imputation_mod c')"
  proof -
    have "m_fitted env (h' ! (length h + j))" if "j < nb" for j
      using v that fitted by force
    then show ?thesis by (simp add: l list_all_length)
  qed
  have tasks: "\<forall>i < length ?ms. \<exists>X_j Xm. group_split c' X (0 + i) = Inr (X_j, Xm) \<and>
             length (m_predict env (?ms ! i) Xm) = nrows X_j * ncols X_j"
  proof (intro allI impI)
    fix i assume "i < length ?ms"
    then have i: "i < nb" by (simp add: l)
    from v i obtain X_j Xm where sp: "group_split c' X i = Inr (X_j, Xm)"
      and m: "h' ! (length h + i) = m_fit env (m_clone env (h ! a)) Xm X_j" by blast
    from size sp have "length (m_predict env (m_fit env (m_clone env (h ! a)) Xm X_j) Xm)
                       = nrows X_j * ncols X_j" by blast
    with sp m nth [OF i]
    show "\<exists>X_j Xm. group_split c' X (0 + i) = Inr (X_j, Xm) \<and>
             length (m_predict env (?ms ! i) Xm) = nrows X_j * ncols X_j" by auto
  qed
  have rs': "\<forall>s. length (fst (rs_permutation env s (nrows X))) = nrows X" using rs by blast
  from predict_all_succeeds [OF tasks rs'] obtain preds s' where
    pa: "predict_all env c' X ?ms 0 (rng c') = Inr (preds, s')" by blast
  have p: "predict env c' X y h' = Inr (preds, c'\<lparr>rng := s'\<rparr>)"
    using ne fi pa by (simp add: predict_def)
  have lp: "length preds = nb" using predict_Inr(3) [OF p] by (simp add: l)
  have "\<forall>j \<in> set [0..<nb]. j < length preds" using lp by simp
  from importance_list_succeeds [OF this] obtain imp where
    "importance_list env
       (map (\<lambda>(j, p). (j, map (loss c' y) p)) (enumerate 0 preds))
       (loss c' y (estimator_predict c' X)) [0..<nb] = Inr imp" by blast
  then show ?thesis
    using ef ne fi p nb by (simp add: score_def Let_def)
qed

end
